theory Spec2Isabelle
  imports Complex_Main "HOL-Library.Extended_Nat"
begin

section \<open>The monitoring database manager (parsl/monitoring/db\_manager.py)\<close>

subsection \<open>Values, messages and exceptions\<close>

text \<open>
  A monitoring message is a Python dictionary from column names to values. The values
  that occur are \<open>None\<close>, booleans, integers, floats, strings and \<open>datetime\<close>
  objects; a \<open>datetime\<close> is represented by its number of microseconds since the epoch,
  a float by a real number (rounding is not represented).
\<close>

datatype val = VNone | VBool bool | VInt int | VFloat real | VStr string | VTime int

type_synonym msg = "string \<rightharpoonup> val"

type_synonym row = "string \<rightharpoonup> val"

text \<open>
  The exceptions that the code raises or handles. \<open>KeyboardInterrupt\<close> and
  \<open>SystemExit\<close> derive from \<open>BaseException\<close> only; the others are subclasses of
  \<open>Exception\<close>. \<open>DBError\<close> stands for any \<open>Exception\<close> raised by the store
  library (an integrity error, a stale-data error, an operational error).
\<close>

datatype exn =
    KeyError string
  | TypeError string
  | RuntimeError string
  | DBError string
  | KeyboardInterrupt
  | SystemExit

fun is_Exception :: "exn \<Rightarrow> bool" where
  "is_Exception KeyboardInterrupt = False"
| "is_Exception SystemExit = False"
| "is_Exception _ = True"

text \<open>\<open>msg.get(key, None)\<close> and \<open>msg[key]\<close>.\<close>

definition msg_get :: "msg \<Rightarrow> string \<Rightarrow> val" where
  "msg_get m k = (case m k of None \<Rightarrow> VNone | Some v \<Rightarrow> v)"

definition msg_item :: "msg \<Rightarrow> string \<Rightarrow> exn + val" where
  "msg_item m k = (case m k of None \<Rightarrow> Inl (KeyError k) | Some v \<Rightarrow> Inr v)"

text \<open>Truthiness of a value, as \<open>if msg['first_msg']:\<close> tests it.\<close>

fun truthy :: "val \<Rightarrow> bool" where
  "truthy VNone = False"
| "truthy (VBool b) = b"
| "truthy (VInt i) = (i \<noteq> 0)"
| "truthy (VFloat x) = (x \<noteq> 0)"
| "truthy (VStr s) = (s \<noteq> [])"
| "truthy (VTime t) = True"

subsection \<open>The schema (class Database, lines 119--294)\<close>

text \<open>
  The six tables. A column is its name, whether it is nullable and whether it belongs to
  the primary key; the columns are listed in the order of their declaration, which is the
  order of \<open>table.c.keys()\<close>.
\<close>

datatype table = WORKFLOW | TASK | TRY | STATUS | RESOURCE | NODE

type_synonym column = "string \<times> bool \<times> bool"

fun table_columns :: "table \<Rightarrow> column list" where
  "table_columns WORKFLOW =
     [(''run_id'', False, True),
      (''workflow_name'', True, False),
      (''workflow_version'', True, False),
      (''time_began'', False, False),
      (''time_completed'', True, False),
      (''host'', False, False),
      (''user'', False, False),
      (''rundir'', False, False),
      (''tasks_failed_count'', False, False),
      (''tasks_completed_count'', False, False)]"
| "table_columns STATUS =
     [(''task_id'', False, True),
      (''task_status_name'', False, True),
      (''timestamp'', False, True),
      (''run_id'', False, True),
      (''try_id'', False, False)]"
| "table_columns TASK =
     [(''task_id'', False, True),
      (''run_id'', False, True),
      (''task_depends'', True, False),
      (''task_func_name'', False, False),
      (''task_memoize'', False, False),
      (''task_hashsum'', True, False),
      (''task_inputs'', True, False),
      (''task_outputs'', True, False),
      (''task_stdin'', True, False),
      (''task_stdout'', True, False),
      (''task_stderr'', True, False),
      (''task_time_returned'', True, False),
      (''task_fail_count'', False, False)]"
| "table_columns TRY =
     [(''try_id'', False, True),
      (''task_id'', False, True),
      (''run_id'', False, True),
      (''hostname'', True, False),
      (''task_executor'', False, False),
      (''task_time_submitted'', True, False),
      (''task_time_running'', True, False),
      (''task_try_time_returned'', True, False),
      (''task_fail_history'', True, False)]"
| "table_columns NODE =
     [(''id'', False, True),
      (''run_id'', False, False),
      (''hostname'', False, False),
      (''cpu_count'', False, False),
      (''total_memory'', False, False),
      (''active'', False, False),
      (''worker_count'', False, False),
      (''python_v'', False, False),
      (''reg_time'', False, False)]"
| "table_columns RESOURCE =
     [(''try_id'', False, True),
      (''task_id'', False, True),
      (''run_id'', False, True),
      (''timestamp'', False, True),
      (''resource_monitoring_interval'', True, False),
      (''psutil_process_pid'', True, False),
      (''psutil_process_cpu_percent'', True, False),
      (''psutil_process_memory_percent'', True, False),
      (''psutil_process_children_count'', True, False),
      (''psutil_process_time_user'', True, False),
      (''psutil_process_time_system'', True, False),
      (''psutil_process_memory_virtual'', True, False),
      (''psutil_process_memory_resident'', True, False),
      (''psutil_process_disk_read'', True, False),
      (''psutil_process_disk_write'', True, False),
      (''psutil_process_status'', True, False)]"

text \<open>\<open>table.c.keys()\<close>: the names of all columns of a table.\<close>

definition column_keys :: "table \<Rightarrow> string list" where
  "column_keys t = map fst (table_columns t)"

subsection \<open>Database.\_generate\_mappings (lines 104--117)\<close>

text \<open>
  The inner loop \<open>for column in columns: m[column] = msg.get(column, None)\<close>, starting
  from the empty dictionary.
\<close>

definition mapping_of :: "string list \<Rightarrow> msg \<Rightarrow> row" where
  "mapping_of columns msg = foldl (\<lambda>m column. m(column \<mapsto> msg_get msg column)) Map.empty columns"

text \<open>
  The outer loop over the messages. \<open>columns\<close> is \<open>None\<close> or a list; when it is
  \<open>None\<close> the first iteration rebinds it to the table's column names.
\<close>

fun generate_mappings_loop :: "table \<Rightarrow> string list option \<Rightarrow> msg list \<Rightarrow> row list \<Rightarrow> row list" where
  "generate_mappings_loop t columns [] mappings = mappings"
| "generate_mappings_loop t columns (msg # messages) mappings =
     (let columns' = (case columns of None \<Rightarrow> column_keys t | Some cs \<Rightarrow> cs);
          m = mapping_of columns' msg
      in generate_mappings_loop t (Some columns') messages (mappings @ [m]))"

definition generate_mappings :: "table \<Rightarrow> string list option \<Rightarrow> msg list \<Rightarrow> row list" where
  "generate_mappings t columns messages = generate_mappings_loop t columns messages []"

text \<open>The columns a call binds: the requested ones, or all columns of the table.\<close>

definition requested_columns :: "table \<Rightarrow> string list option \<Rightarrow> string list" where
  "requested_columns t columns = (case columns of None \<Rightarrow> column_keys t | Some cs \<Rightarrow> cs)"

subsection \<open>DatabaseManager.\_get\_messages\_in\_batch (lines 598--612)\<close>

text \<open>
  The batching interval is a number of seconds or \<open>float('inf')\<close> (set by \<open>close\<close>);
  the batching threshold is a number of messages or \<open>float('inf')\<close>.
\<close>

datatype seconds = Secs real | Forever

fun interval_reached :: "real \<Rightarrow> seconds \<Rightarrow> bool" where
  "interval_reached elapsed (Secs i) = (elapsed \<ge> i)"
| "interval_reached elapsed Forever = False"

text \<open>Which of the two \<open>break\<close> statements ended the loop.\<close>

datatype stop = Cutoff | Queue_Empty

text \<open>
  The loop \<open>while True\<close>. The queue is the list of the items waiting in it, oldest
  first; \<open>msg_queue.get(timeout=0.1)\<close> takes the first item, or raises \<open>queue.Empty\<close>
  when no item is there. \<open>clock k\<close> is the value of the k-th call of \<open>time.time()\<close>;
  call 0 sets \<open>start\<close>. The result is the list \<open>messages\<close>, what is left in the queue,
  and the \<open>break\<close> taken.
\<close>

fun get_messages_loop ::
  "(nat \<Rightarrow> real) \<Rightarrow> nat \<Rightarrow> real \<Rightarrow> seconds \<Rightarrow> enat \<Rightarrow> 'a list \<Rightarrow> 'a list \<Rightarrow> 'a list \<times> 'a list \<times> stop" where
  "get_messages_loop clock k start interval threshold messages [] =
     (if interval_reached (clock k - start) interval \<or> enat (length messages) \<ge> threshold
      then (messages, [], Cutoff)
      else (messages, [], Queue_Empty))"
| "get_messages_loop clock k start interval threshold messages (x # msg_queue) =
     (if interval_reached (clock k - start) interval \<or> enat (length messages) \<ge> threshold
      then (messages, x # msg_queue, Cutoff)
      else get_messages_loop clock (Suc k) start interval threshold (messages @ [x]) msg_queue)"

definition get_messages_in_batch ::
  "(nat \<Rightarrow> real) \<Rightarrow> 'a list \<Rightarrow> seconds \<Rightarrow> enat \<Rightarrow> 'a list \<times> 'a list \<times> stop" where
  "get_messages_in_batch clock msg_queue interval threshold =
     get_messages_loop clock 1 (clock 0) interval threshold [] msg_queue"

subsection \<open>The condition of the coordinator loop (lines 373--375)\<close>

text \<open>
  The three internal queues of the manager and the three queues it is started with, each
  as the list of its waiting items; \<open>qsize()\<close> is the length.
\<close>

record ('p, 'm) queues =
  pending_priority_queue :: "'p list"
  pending_node_queue :: "'m list"
  pending_resource_queue :: "'m list"
  priority_queue :: "'p list"
  node_queue :: "'m list"
  resource_queue :: "'m list"

definition loop_condition :: "bool \<Rightarrow> ('p, 'm) queues \<Rightarrow> bool" where
  "loop_condition kill_event_is_set qs =
     (\<not> kill_event_is_set \<or>
      length (pending_priority_queue qs) \<noteq> 0 \<or> length (pending_resource_queue qs) \<noteq> 0 \<or>
      length (priority_queue qs) \<noteq> 0 \<or> length (resource_queue qs) \<noteq> 0)"

subsection \<open>The store session and the methods of Database (lines 74--102)\<close>

text \<open>
  The SQL session is a library object. Its four operations are parameters of the model:
  each takes the state of the store and returns the exception it raises, if any, and the
  state of the store afterwards.
\<close>

record 'db session =
  bulk_insert_mappings :: "table \<Rightarrow> row list \<Rightarrow> 'db \<Rightarrow> exn option \<times> 'db"
  bulk_update_mappings :: "table \<Rightarrow> row list \<Rightarrow> 'db \<Rightarrow> exn option \<times> 'db"
  commit :: "'db \<Rightarrow> exn option \<times> 'db"
  rollback :: "'db \<Rightarrow> exn option \<times> 'db"

definition db_update ::
  "'db session \<Rightarrow> table \<Rightarrow> string list option \<Rightarrow> msg list \<Rightarrow> 'db \<Rightarrow> exn option \<times> 'db" where
  "db_update S t columns messages d =
     (let mappings = generate_mappings t columns messages
      in case bulk_update_mappings S t mappings d of
           (Some e, d') \<Rightarrow> (Some e, d')
         | (None, d') \<Rightarrow> commit S d')"

definition db_insert ::
  "'db session \<Rightarrow> table \<Rightarrow> msg list \<Rightarrow> 'db \<Rightarrow> exn option \<times> 'db" where
  "db_insert S t messages d =
     (let mappings = generate_mappings t None messages
      in case bulk_insert_mappings S t mappings d of
           (Some e, d') \<Rightarrow> (Some e, d')
         | (None, d') \<Rightarrow> commit S d')"

definition db_rollback :: "'db session \<Rightarrow> 'db \<Rightarrow> exn option \<times> 'db" where
  "db_rollback S d = rollback S d"

subsection \<open>The state of the manager\<close>

text \<open>A call of \<open>_insert\<close> or \<open>_update\<close>, with its arguments.\<close>

datatype dml = Insert table "msg list" | Update table "string list" "msg list"

text \<open>
  The fields of \<open>self\<close> that the code reads or writes, the store behind \<open>self.db\<close> (field \<open>store\<close>),
  and two observations: \<open>calls\<close> lists the calls of \<open>_insert\<close> and \<open>_update\<close> made so
  far, each with the exception that the \<open>Database\<close> method raised (if any) and the store
  when the call ended; \<open>logged\<close> lists the lines written by \<open>logger.exception\<close> and
  \<open>logger.error\<close> (debug and info lines are left out). Nothing reads \<open>calls\<close> or \<open>logged\<close>.
\<close>

record 'db dbm =
  workflow_end :: bool
  workflow_start_message :: "msg option"
  batching_interval :: seconds
  batching_threshold :: enat
  kill_event :: bool
  store :: 'db
  calls :: "(dml \<times> exn option \<times> 'db) list"
  logged :: "string list"

fun table_name :: "table \<Rightarrow> string" where
  "table_name WORKFLOW = ''workflow''"
| "table_name TASK = ''task''"
| "table_name TRY = ''try''"
| "table_name STATUS = ''status''"
| "table_name RESOURCE = ''resource''"
| "table_name NODE = ''node''"

subsection \<open>DatabaseManager.\_update and \_insert (lines 564--596)\<close>

text \<open>
  The inner \<open>try: self.db.rollback() except Exception: logger.exception("Rollback failed")\<close>.
  An exception of the rollback that is an \<open>Exception\<close> is logged and dropped; any other
  one propagates.
\<close>

definition try_rollback :: "'db session \<Rightarrow> 'db dbm \<Rightarrow> exn option \<times> 'db dbm" where
  "try_rollback S s =
     (case db_rollback S (store s) of
        (None, d) \<Rightarrow> (None, s\<lparr>store := d\<rparr>)
      | (Some e, d) \<Rightarrow>
          if is_Exception e then (None, s\<lparr>store := d, logged := logged s @ [''Rollback failed'']\<rparr>)
          else (Some e, s\<lparr>store := d\<rparr>))"

text \<open>
  The handlers of \<open>_update\<close> and \<open>_insert\<close>, given the exception \<open>e\<close> raised in the
  \<open>try\<close> block and the line to log: \<open>except KeyboardInterrupt\<close> logs, tries the
  rollback and re-raises; \<open>except Exception\<close> logs and tries the rollback; an exception
  of neither class is not handled.
\<close>

definition handle_dml_exception ::
  "'db session \<Rightarrow> exn \<Rightarrow> string \<Rightarrow> string \<Rightarrow> 'db dbm \<Rightarrow> exn option \<times> 'db dbm" where
  "handle_dml_exception S e interrupt_line exception_line s =
     (if e = KeyboardInterrupt then
        (case try_rollback S (s\<lparr>logged := logged s @ [interrupt_line]\<rparr>) of
           (None, s') \<Rightarrow> (Some KeyboardInterrupt, s')
         | (Some e', s') \<Rightarrow> (Some e', s'))
      else if is_Exception e then
        try_rollback S (s\<lparr>logged := logged s @ [exception_line]\<rparr>)
      else (Some e, s))"

definition record_call :: "dml \<Rightarrow> exn option \<Rightarrow> exn option \<times> 'db dbm \<Rightarrow> exn option \<times> 'db dbm" where
  "record_call c raised r =
     (case r of (out, s) \<Rightarrow> (out, s\<lparr>calls := calls s @ [(c, raised, store s)]\<rparr>))"

definition dbm_update ::
  "'db session \<Rightarrow> table \<Rightarrow> string list \<Rightarrow> msg list \<Rightarrow> 'db dbm \<Rightarrow> exn option \<times> 'db dbm" where
  "dbm_update S t columns messages s =
     record_call (Update t columns messages) (fst (db_update S t (Some columns) messages (store s)))
       (case db_update S t (Some columns) messages (store s) of
          (None, d) \<Rightarrow> (None, s\<lparr>store := d\<rparr>)
        | (Some e, d) \<Rightarrow>
            handle_dml_exception S e
              (''KeyboardInterrupt when trying to update Table '' @ table_name t)
              (''Got exception when trying to update table '' @ table_name t)
              (s\<lparr>store := d\<rparr>))"

definition dbm_insert ::
  "'db session \<Rightarrow> table \<Rightarrow> msg list \<Rightarrow> 'db dbm \<Rightarrow> exn option \<times> 'db dbm" where
  "dbm_insert S t messages s =
     record_call (Insert t messages) (fst (db_insert S t messages (store s)))
       (case db_insert S t messages (store s) of
          (None, d) \<Rightarrow> (None, s\<lparr>store := d\<rparr>)
        | (Some e, d) \<Rightarrow>
            handle_dml_exception S e
              (''KeyboardInterrupt when trying to update Table '' @ table_name t)
              (''Got exception when trying to insert to table '' @ table_name t)
              (s\<lparr>store := d\<rparr>))"

text \<open>
  \<open>DatabaseManager.__init__\<close> (lines 298--323), over a given store; the two batching
  parameters are arguments of the constructor.
\<close>

definition init_dbm :: "'db \<Rightarrow> seconds \<Rightarrow> enat \<Rightarrow> 'db dbm" where
  "init_dbm d interval threshold =
     \<lparr>workflow_end = False, workflow_start_message = None,
      batching_interval = interval, batching_threshold = threshold,
      kill_event = False, store = d, calls = [], logged = []\<rparr>"

subsection \<open>Python's str on values\<close>

text \<open>
  \<open>str\<close> of an integer is its decimal numeral, with a minus sign when negative; of a
  string the string itself; of \<open>None\<close> and the booleans their names. Task and try
  identifiers are integers. The renderings of a float and of a \<open>datetime\<close> are not
  reproduced character by character: they are marked with a bracket and a parenthesis.
\<close>

definition digit_char :: "nat \<Rightarrow> char" where
  "digit_char d = ''0123456789'' ! d"

function str_nat :: "nat \<Rightarrow> string" where
  "str_nat n = (if n < 10 then [digit_char n] else str_nat (n div 10) @ [digit_char (n mod 10)])"
  by pat_completeness auto
termination
  by (relation "measure id") auto

declare str_nat.simps [simp del]

definition str_int :: "int \<Rightarrow> string" where
  "str_int i = (if i < 0 then ''-'' @ str_nat (nat (- i)) else str_nat (nat i))"

fun py_str :: "val \<Rightarrow> string" where
  "py_str VNone = ''None''"
| "py_str (VBool b) = (if b then ''True'' else ''False'')"
| "py_str (VInt i) = str_int i"
| "py_str (VStr s) = s"
| "py_str (VFloat x) = ''<float '' @ str_int (floor x) @ ''>''"
| "py_str (VTime t) = ''datetime('' @ str_int t @ '')''"

subsection \<open>The coordinator loop of DatabaseManager.start (lines 360--538)\<close>

text \<open>
  Modelled from the spec: the enumeration \<open>MessageType\<close> is imported from
  \<open>parsl.monitoring.message_type\<close>; the spec names its members \<open>WORKFLOW_INFO\<close> and
  \<open>TASK_INFO\<close> as the tags of the priority queue, and calls any other tag a programming
  error. \<open>OTHER_TYPE n\<close> stands for any other member.
\<close>

datatype MessageType = WORKFLOW_INFO | TASK_INFO | OTHER_TYPE nat

text \<open>
  Modelled from the spec: \<open>States.running.name\<close>, imported from
  \<open>parsl.dataflow.states\<close>, is the status name \<open>"running"\<close>.
\<close>

definition States_running_name :: string where
  "States_running_name = ''running''"

text \<open>
  The local variables of \<open>start\<close> that live across iterations, and the list
  \<open>reprocessable_first_resource_messages\<close>, which every iteration starts empty.
\<close>

record locals =
  inserted_tasks :: "val set"
  inserted_tries :: "string set"
  deferred_resource_messages :: "string \<rightharpoonup> msg"
  reprocessable_first_resource_messages :: "msg list"

text \<open>The six lists that the priority phase fills (lines 398--399).\<close>

record batch_lists =
  task_info_update_messages :: "msg list"
  task_info_insert_messages :: "msg list"
  task_info_all_messages :: "msg list"
  try_update_messages :: "msg list"
  try_insert_messages :: "msg list"
  try_all_messages :: "msg list"

definition empty_batch_lists :: batch_lists where
  "empty_batch_lists =
     \<lparr>task_info_update_messages = [], task_info_insert_messages = [],
      task_info_all_messages = [], try_update_messages = [], try_insert_messages = [],
      try_all_messages = []\<rparr>"

text \<open>
  Statements in sequence and loops over a list, where a raised exception ends the
  execution: a step returns the exception it raises, if any, and the state at that point.
\<close>

definition andthen ::
  "('s \<Rightarrow> exn option \<times> 's) \<Rightarrow> ('s \<Rightarrow> exn option \<times> 's) \<Rightarrow> 's \<Rightarrow> exn option \<times> 's" where
  "andthen f g s = (case f s of (None, s') \<Rightarrow> g s' | (Some e, s') \<Rightarrow> (Some e, s'))"

definition if_then :: "bool \<Rightarrow> ('s \<Rightarrow> exn option \<times> 's) \<Rightarrow> 's \<Rightarrow> exn option \<times> 's" where
  "if_then b f s = (if b then f s else (None, s))"

fun for_each :: "('a \<Rightarrow> 's \<Rightarrow> exn option \<times> 's) \<Rightarrow> 'a list \<Rightarrow> 's \<Rightarrow> exn option \<times> 's" where
  "for_each f [] s = (None, s)"
| "for_each f (x # xs) s =
     (case f x s of (None, s') \<Rightarrow> for_each f xs s' | (Some e, s') \<Rightarrow> (Some e, s'))"

text \<open>The body of the loop over the priority batch (lines 400--440).\<close>

fun priority_message ::
  "'db session \<Rightarrow> MessageType \<times> msg \<Rightarrow> 'db dbm \<times> locals \<times> batch_lists \<Rightarrow>
     exn option \<times> 'db dbm \<times> locals \<times> batch_lists" where
  "priority_message S (msg_type, msg) (s, l, b) =
     (if msg_type = WORKFLOW_INFO then
        (if msg ''python_version'' \<noteq> None then
           (case dbm_insert S WORKFLOW [msg] s of
              (Some e, s') \<Rightarrow> (Some e, s', l, b)
            | (None, s') \<Rightarrow> (None, s'\<lparr>workflow_start_message := Some msg\<rparr>, l, b))
         else
           (case dbm_update S WORKFLOW
                   [''run_id'', ''tasks_failed_count'', ''tasks_completed_count'', ''time_completed'']
                   [msg] s of
              (Some e, s') \<Rightarrow> (Some e, s', l, b)
            | (None, s') \<Rightarrow> (None, s'\<lparr>workflow_end := True\<rparr>, l, b)))
      else if msg_type = TASK_INFO then
        (case msg_item msg ''task_id'' of
           Inl e \<Rightarrow> (Some e, s, l, b)
         | Inr task_id \<Rightarrow>
        (case msg_item msg ''try_id'' of
           Inl e \<Rightarrow> (Some e, s, l, b)
         | Inr try_id \<Rightarrow>
        (let task_try_id = py_str task_id @ ''.'' @ py_str try_id;
             b1 = b\<lparr>task_info_all_messages := task_info_all_messages b @ [msg]\<rparr>;
             l1 = (if task_id \<in> inserted_tasks l then l
                   else l\<lparr>inserted_tasks := insert task_id (inserted_tasks l)\<rparr>);
             b2 = (if task_id \<in> inserted_tasks l
                   then b1\<lparr>task_info_update_messages := task_info_update_messages b1 @ [msg]\<rparr>
                   else b1\<lparr>task_info_insert_messages := task_info_insert_messages b1 @ [msg]\<rparr>);
             b3 = b2\<lparr>try_all_messages := try_all_messages b2 @ [msg]\<rparr>
         in if task_try_id \<in> inserted_tries l1 then
              (None, s, l1, b3\<lparr>try_update_messages := try_update_messages b3 @ [msg]\<rparr>)
            else
              (let l2 = l1\<lparr>inserted_tries := insert task_try_id (inserted_tries l1)\<rparr>;
                   b4 = b3\<lparr>try_insert_messages := try_insert_messages b3 @ [msg]\<rparr>
               in case deferred_resource_messages l2 task_try_id of
                    None \<Rightarrow> (None, s, l2, b4)
                  | Some deferred \<Rightarrow>
                      (None, s,
                       l2\<lparr>reprocessable_first_resource_messages :=
                             reprocessable_first_resource_messages l2 @ [deferred],
                           deferred_resource_messages :=
                             (deferred_resource_messages l2)(task_try_id := None)\<rparr>,
                       b4)))))
      else (Some (RuntimeError ''Unexpected message type received on priority queue''), s, l, b))"

text \<open>The calls that follow the loop (lines 448--492), in their order.\<close>

definition priority_dml :: "'db session \<Rightarrow> batch_lists \<Rightarrow> 'db dbm \<Rightarrow> exn option \<times> 'db dbm" where
  "priority_dml S b =
     andthen (dbm_update S WORKFLOW
                [''run_id'', ''tasks_failed_count'', ''tasks_completed_count'']
                (task_info_all_messages b))
    (andthen (if_then (task_info_insert_messages b \<noteq> [])
                (dbm_insert S TASK (task_info_insert_messages b)))
    (andthen (if_then (task_info_update_messages b \<noteq> [])
                (dbm_update S TASK
                   [''task_time_submitted'', ''task_time_returned'', ''run_id'', ''task_id'',
                    ''task_fail_count'']
                   (task_info_update_messages b)))
    (andthen (dbm_insert S STATUS (task_info_all_messages b))
    (andthen (if_then (try_insert_messages b \<noteq> [])
                (dbm_insert S TRY (try_insert_messages b)))
             (if_then (try_update_messages b \<noteq> [])
                (dbm_update S TRY
                   [''task_time_returned'', ''run_id'', ''task_id'', ''try_id'',
                    ''task_fail_history'', ''task_time_submitted'', ''task_try_time_returned'']
                   (try_update_messages b)))))))"

fun priority_phase ::
  "'db session \<Rightarrow> (MessageType \<times> msg) list \<Rightarrow> 'db dbm \<times> locals \<Rightarrow> exn option \<times> 'db dbm \<times> locals" where
  "priority_phase S priority_messages (s, l) =
     (if priority_messages = [] then (None, s, l)
      else
        (case for_each (priority_message S) priority_messages (s, l, empty_batch_lists) of
           (Some e, s', l', b) \<Rightarrow> (Some e, s', l')
         | (None, s', l', b) \<Rightarrow>
             (case priority_dml S b s' of (out, s'') \<Rightarrow> (out, s'', l'))))"

text \<open>The node batch (lines 498--504).\<close>

fun node_phase ::
  "'db session \<Rightarrow> msg list \<Rightarrow> 'db dbm \<times> locals \<Rightarrow> exn option \<times> 'db dbm \<times> locals" where
  "node_phase S node_info_messages (s, l) =
     (if node_info_messages = [] then (None, s, l)
      else (case dbm_insert S NODE node_info_messages s of (out, s') \<Rightarrow> (out, s', l)))"

text \<open>The body of the loop over the resource batch (lines 518--530).\<close>

fun resource_message :: "msg \<Rightarrow> 'db dbm \<times> locals \<Rightarrow> exn option \<times> 'db dbm \<times> locals" where
  "resource_message msg (s, l) =
     (case msg_item msg ''task_id'' of
        Inl e \<Rightarrow> (Some e, s, l)
      | Inr task_id \<Rightarrow>
     (case msg_item msg ''try_id'' of
        Inl e \<Rightarrow> (Some e, s, l)
      | Inr try_id \<Rightarrow>
     (case msg_item msg ''first_msg'' of
        Inl e \<Rightarrow> (Some e, s, l)
      | Inr first_msg \<Rightarrow>
     (let task_try_id = py_str task_id @ ''.'' @ py_str try_id
      in if truthy first_msg then
           (let msg1 = msg(''task_status_name'' \<mapsto> VStr States_running_name)
            in case msg_item msg1 ''timestamp'' of
                 Inl e \<Rightarrow> (Some e, s, l)
               | Inr timestamp \<Rightarrow>
                   (let msg2 = msg1(''task_time_running'' \<mapsto> timestamp)
                    in if task_try_id \<in> inserted_tries l then
                         (None, s,
                          l\<lparr>reprocessable_first_resource_messages :=
                               reprocessable_first_resource_messages l @ [msg2]\<rparr>)
                       else
                         (None,
                          (if deferred_resource_messages l task_try_id \<noteq> None
                           then s\<lparr>logged := logged s @
                                  [''Task '' @ py_str task_id @
                                   '' already has a deferred resource message. Discarding previous message.'']\<rparr>
                           else s),
                          l\<lparr>deferred_resource_messages :=
                               (deferred_resource_messages l)(task_try_id \<mapsto> msg2)\<rparr>)))
         else (None, s, l)))))"

text \<open>The resource batch (lines 510--530).\<close>

fun resource_phase ::
  "'db session \<Rightarrow> msg list \<Rightarrow> 'db dbm \<times> locals \<Rightarrow> exn option \<times> 'db dbm \<times> locals" where
  "resource_phase S resource_messages (s, l) =
     (if resource_messages = [] then (None, s, l)
      else
        (case dbm_insert S RESOURCE resource_messages s of
           (Some e, s') \<Rightarrow> (Some e, s', l)
         | (None, s') \<Rightarrow> for_each resource_message resource_messages (s', l)))"

text \<open>The promoted first resource messages (lines 532--538).\<close>

fun reprocess_phase :: "'db session \<Rightarrow> 'db dbm \<times> locals \<Rightarrow> exn option \<times> 'db dbm \<times> locals" where
  "reprocess_phase S (s, l) =
     (if reprocessable_first_resource_messages l = [] then (None, s, l)
      else
        (case andthen (dbm_insert S STATUS (reprocessable_first_resource_messages l))
                (dbm_update S TRY
                   [''task_time_running'', ''run_id'', ''task_id'', ''try_id'', ''hostname'']
                   (reprocessable_first_resource_messages l)) s of
           (out, s') \<Rightarrow> (out, s', l)))"

text \<open>
  One iteration of the \<open>while\<close> loop, given the three batches that
  \<open>_get_messages_in_batch\<close> returned for the priority, node and resource queues.
\<close>

fun coordinator_iteration ::
  "'db session \<Rightarrow> (MessageType \<times> msg) list \<times> msg list \<times> msg list \<Rightarrow> 'db dbm \<times> locals \<Rightarrow>
     exn option \<times> 'db dbm \<times> locals" where
  "coordinator_iteration S (priority_messages, node_info_messages, resource_messages) (s, l) =
     andthen (priority_phase S priority_messages)
    (andthen (node_phase S node_info_messages)
    (andthen (resource_phase S resource_messages)
             (reprocess_phase S)))
       (s, l\<lparr>reprocessable_first_resource_messages := []\<rparr>)"

definition initial_locals :: locals where
  "initial_locals =
     \<lparr>inserted_tasks = {}, inserted_tries = {}, deferred_resource_messages = Map.empty,
      reprocessable_first_resource_messages = []\<rparr>"

text \<open>
  The loop over a finite trace: one triple of batches per iteration. The order in which
  the three streams deliver their messages is the choice of the batches.
\<close>

definition start_loop ::
  "'db session \<Rightarrow> ((MessageType \<times> msg) list \<times> msg list \<times> msg list) list \<Rightarrow> 'db dbm \<Rightarrow>
     exn option \<times> 'db dbm \<times> locals" where
  "start_loop S trace s = for_each (coordinator_iteration S) trace (s, initial_locals)"

subsection \<open>DatabaseManager.close (lines 614--628)\<close>

text \<open>
  \<open>now\<close> is the value of \<open>datetime.datetime.now()\<close>. The difference of two
  \<open>datetime\<close> objects is a \<open>timedelta\<close>, and \<open>total_seconds()\<close> its length in
  seconds; subtracting anything else from a \<open>datetime\<close> raises \<open>TypeError\<close>. A
  dictionary is true when it is not empty.
\<close>

definition close :: "'db session \<Rightarrow> int \<Rightarrow> 'db dbm \<Rightarrow> exn option \<times> 'db dbm" where
  "close S now s =
     andthen
       (\<lambda>s. case workflow_start_message s of
               None \<Rightarrow> (None, s)
             | Some start_message \<Rightarrow>
                 if \<not> workflow_end s \<and> start_message \<noteq> Map.empty then
                   (case msg_item start_message ''time_began'' of
                      Inl e \<Rightarrow> (Some e, s)
                    | Inr (VTime time_began) \<Rightarrow>
                        (let time_completed = now;
                             msg = start_message
                                     (''time_completed'' \<mapsto> VTime time_completed,
                                      ''workflow_duration'' \<mapsto>
                                         VFloat (real_of_int (time_completed - time_began) / 1000000))
                         in dbm_update S WORKFLOW
                              [''run_id'', ''time_completed'', ''workflow_duration''] [msg]
                              (s\<lparr>workflow_start_message := Some msg\<rparr>))
                    | Inr _ \<Rightarrow> (Some (TypeError ''unsupported operand type(s) for -''), s))
                 else (None, s))
       (\<lambda>s. (None, s\<lparr>batching_interval := Forever, batching_threshold := \<infinity>, kill_event := True\<rparr>))
       s"

subsection \<open>A relational store\<close>

text \<open>
  Modelled from the spec (section 4.2, Store Adapter): the SQL session is a library
  object and not code of the repository. \<open>bulk_insert\<close> inserts every row and fails on a
  primary-key conflict; \<open>bulk_update\<close> updates the listed columns of the row with the
  primary key of each mapping, and a missing row is ignored or an error by the store's
  policy (\<open>strict\<close>); each call is one transaction, so a failed call followed by the
  rollback leaves the tables as they were. A column declared \<open>nullable=False\<close> rejects
  \<open>None\<close>, the \<open>id\<close> of \<open>node\<close> is assigned by the store, and keys of a mapping that
  are not columns of the table are ignored.
\<close>

type_synonym tables = "table \<Rightarrow> row list"

definition pk_columns :: "table \<Rightarrow> string list" where
  "pk_columns t = map fst (filter (\<lambda>(name, nullable, pk). pk) (table_columns t))"

definition not_null_columns :: "table \<Rightarrow> string list" where
  "not_null_columns t = map fst (filter (\<lambda>(name, nullable, pk). \<not> nullable) (table_columns t))"

definition pk_of :: "table \<Rightarrow> row \<Rightarrow> val list" where
  "pk_of t r = map (msg_get r) (pk_columns t)"

definition has_null :: "table \<Rightarrow> row \<Rightarrow> bool" where
  "has_null t r = list_ex (\<lambda>c. msg_get r c = VNone) (not_null_columns t)"

definition next_id :: "row list \<Rightarrow> int" where
  "next_id rows = 1 + foldl (\<lambda>m r. case msg_get r ''id'' of VInt i \<Rightarrow> max m i | _ \<Rightarrow> m) 0 rows"

definition unique_violation :: exn where
  "unique_violation = DBError ''UNIQUE constraint failed''"

definition not_null_violation :: exn where
  "not_null_violation = DBError ''NOT NULL constraint failed''"

fun sql_insert_rows :: "table \<Rightarrow> row list \<Rightarrow> row list \<Rightarrow> exn + row list" where
  "sql_insert_rows t [] rows = Inr rows"
| "sql_insert_rows t (m # mappings) rows =
     (let m' = m |` set (column_keys t);
          r = (if t = NODE \<and> msg_get m' ''id'' = VNone
               then m'(''id'' \<mapsto> VInt (next_id rows)) else m')
      in if has_null t r then Inl not_null_violation
         else if pk_of t r \<in> set (map (pk_of t) rows) then Inl unique_violation
         else sql_insert_rows t mappings (rows @ [r]))"

definition set_columns :: "table \<Rightarrow> row \<Rightarrow> row \<Rightarrow> row" where
  "set_columns t m r =
     foldl (\<lambda>r c. r(c \<mapsto> msg_get m c)) r
       (filter (\<lambda>c. c \<notin> set (pk_columns t) \<and> m c \<noteq> None) (column_keys t))"

fun sql_update_rows :: "bool \<Rightarrow> table \<Rightarrow> row list \<Rightarrow> row list \<Rightarrow> exn + row list" where
  "sql_update_rows strict t [] rows = Inr rows"
| "sql_update_rows strict t (m # mappings) rows =
     (if VNone \<in> set (pk_of t m) then
        Inl (DBError ''Can't update table using NULL for primary key value'')
      else if strict \<and> pk_of t m \<notin> set (map (pk_of t) rows) then
        Inl (DBError ''UPDATE statement expected to update 1 row(s); 0 were matched'')
      else
        (let rows' = map (\<lambda>r. if pk_of t r = pk_of t m then set_columns t m r else r) rows
         in if list_ex (has_null t) rows' then Inl not_null_violation
            else sql_update_rows strict t mappings rows'))"

definition sql_session :: "bool \<Rightarrow> tables session" where
  "sql_session strict =
     \<lparr>bulk_insert_mappings =
        (\<lambda>t mappings d. case sql_insert_rows t mappings (d t) of
                           Inl e \<Rightarrow> (Some e, d) | Inr rows \<Rightarrow> (None, d(t := rows))),
      bulk_update_mappings =
        (\<lambda>t mappings d. case sql_update_rows strict t mappings (d t) of
                           Inl e \<Rightarrow> (Some e, d) | Inr rows \<Rightarrow> (None, d(t := rows))),
      commit = (\<lambda>d. (None, d)),
      rollback = (\<lambda>d. (None, d))\<rparr>"

definition empty_tables :: tables where
  "empty_tables = (\<lambda>t. [])"

text \<open>
  A session over a store without content, for exercising the handlers: every bulk
  operation raises \<open>e\<close>, and the rollback raises \<open>r\<close> when \<open>r\<close> is not \<open>None\<close>.
\<close>

definition failing_session :: "exn \<Rightarrow> exn option \<Rightarrow> unit session" where
  "failing_session e r =
     \<lparr>bulk_insert_mappings = (\<lambda>t rows d. (Some e, d)),
      bulk_update_mappings = (\<lambda>t rows d. (Some e, d)),
      commit = (\<lambda>d. (None, d)),
      rollback = (\<lambda>d. (r, d))\<rparr>"

subsection \<open>Observations on the calls made\<close>

text \<open>The calls of \<open>_insert\<close> and \<open>_update\<close> made so far, in order.\<close>


definition issued :: "'db dbm \<Rightarrow> dml list" where
  "issued s = map fst (calls s)"

text \<open>The messages handed to \<open>_insert\<close> for a table, over a list of calls.\<close>

fun insert_messages :: "table \<Rightarrow> dml \<Rightarrow> msg list" where
  "insert_messages t (Insert t' messages) = (if t' = t then messages else [])"
| "insert_messages t (Update t' columns messages) = []"

definition inserted_into :: "table \<Rightarrow> dml list \<Rightarrow> msg list" where
  "inserted_into t cs = concat (map (insert_messages t) cs)"

text \<open>
  A step issues the calls \<open>cs\<close>: it appends a prefix of them to the calls made, and all
  of them when it returns normally.
\<close>

definition issues :: "('db dbm \<Rightarrow> exn option \<times> 'db dbm) \<Rightarrow> dml list \<Rightarrow> bool" where
  "issues f cs =
     (\<forall>s out s'. f s = (out, s') \<longrightarrow>
        (\<exists>n. issued s' = issued s @ take n cs) \<and> (out = None \<longrightarrow> issued s' = issued s @ cs))"


text \<open>A workflow-start message, as the workflow engine sends it.\<close>

definition example_workflow_start :: msg where
  "example_workflow_start =
     [''run_id'' \<mapsto> VStr ''r1'', ''python_version'' \<mapsto> VStr ''3.8'', ''host'' \<mapsto> VStr ''h'',
      ''user'' \<mapsto> VStr ''u'', ''rundir'' \<mapsto> VStr ''/tmp'', ''time_began'' \<mapsto> VTime 0,
      ''tasks_failed_count'' \<mapsto> VInt 0, ''tasks_completed_count'' \<mapsto> VInt 0]"

declare priority_message.simps [simp del]

declare resource_message.simps [simp del]
declare resource_phase.simps [simp del]
declare node_phase.simps [simp del]
declare reprocess_phase.simps [simp del]
declare priority_phase.simps [simp del]
declare coordinator_iteration.simps [simp del]

text \<open>A resource sample that is not the first of its try.\<close>

definition example_resource_sample :: msg where
  "example_resource_sample =
     [''task_id'' \<mapsto> VInt 1, ''try_id'' \<mapsto> VInt 0, ''run_id'' \<mapsto> VStr ''r1'',
      ''timestamp'' \<mapsto> VTime 3, ''first_msg'' \<mapsto> VBool False,
      ''psutil_process_pid'' \<mapsto> VInt 4242]"

text \<open>The calls that \<open>priority_dml\<close> makes when none of them raises.\<close>

definition priority_calls :: "batch_lists \<Rightarrow> dml list" where
  "priority_calls b =
     [Update WORKFLOW [''run_id'', ''tasks_failed_count'', ''tasks_completed_count'']
        (task_info_all_messages b)] @
     (if task_info_insert_messages b \<noteq> [] then [Insert TASK (task_info_insert_messages b)] else []) @
     (if task_info_update_messages b \<noteq> []
      then [Update TASK
              [''task_time_submitted'', ''task_time_returned'', ''run_id'', ''task_id'',
               ''task_fail_count'']
              (task_info_update_messages b)]
      else []) @
     [Insert STATUS (task_info_all_messages b)] @
     (if try_insert_messages b \<noteq> [] then [Insert TRY (try_insert_messages b)] else []) @
     (if try_update_messages b \<noteq> []
      then [Update TRY
              [''task_time_returned'', ''run_id'', ''task_id'', ''try_id'', ''task_fail_history'',
               ''task_time_submitted'', ''task_try_time_returned'']
              (try_update_messages b)]
      else [])"

text \<open>
  The key \<open>task_try_id\<close> of a message that has both identifiers, and the primary keys
  of the rows that a message gives in the task and try tables.
\<close>

definition task_try_id :: "msg \<Rightarrow> string" where
  "task_try_id m = py_str (msg_get m ''task_id'') @ ''.'' @ py_str (msg_get m ''try_id'')"

definition task_pk :: "msg \<Rightarrow> val \<times> val" where
  "task_pk m = (msg_get m ''task_id'', msg_get m ''run_id'')"

definition try_pk :: "msg \<Rightarrow> val \<times> val \<times> val" where
  "try_pk m = (msg_get m ''try_id'', msg_get m ''task_id'', msg_get m ''run_id'')"

text \<open>
  The invariant of the coordinator: the messages handed to \<open>_insert\<close> for the task
  table have pairwise different task identifiers, all in \<open>inserted_tasks\<close>; those for
  the try table have pairwise different keys, all in \<open>inserted_tries\<close>.
\<close>

definition key_inv :: "('a \<Rightarrow> 'k) \<Rightarrow> 'a list \<Rightarrow> 'k set \<Rightarrow> bool" where
  "key_inv f xs K = (distinct (map f xs) \<and> f ` set xs \<subseteq> K)"

definition insert_inv :: "msg list \<Rightarrow> msg list \<Rightarrow> locals \<Rightarrow> bool" where
  "insert_inv tasks tries l =
     (key_inv (\<lambda>m. msg_get m ''task_id'') tasks (inserted_tasks l) \<and>
      key_inv task_try_id tries (inserted_tries l))"

definition coordinator_inv :: "'db dbm \<Rightarrow> locals \<Rightarrow> bool" where
  "coordinator_inv s l =
     insert_inv (inserted_into TASK (issued s)) (inserted_into TRY (issued s)) l"

text \<open>A task message, as the workflow engine sends it when a task is submitted.\<close>

definition example_task_info :: msg where
  "example_task_info =
     [''task_id'' \<mapsto> VInt 1, ''try_id'' \<mapsto> VInt 0, ''run_id'' \<mapsto> VStr ''r1'',
      ''task_func_name'' \<mapsto> VStr ''f'', ''task_memoize'' \<mapsto> VStr ''False'',
      ''task_fail_count'' \<mapsto> VInt 0, ''task_executor'' \<mapsto> VStr ''htex'',
      ''task_time_submitted'' \<mapsto> VTime 1, ''task_status_name'' \<mapsto> VStr ''pending'',
      ''timestamp'' \<mapsto> VTime 1, ''tasks_failed_count'' \<mapsto> VInt 0,
      ''tasks_completed_count'' \<mapsto> VInt 0]"

text \<open>The manager after it has processed the workflow-start message, on the relational store.\<close>

definition started_dbm :: "tables dbm" where
  "started_dbm =
     fst (snd (priority_message (sql_session True) (WORKFLOW_INFO, example_workflow_start)
       (init_dbm empty_tables (Secs 1) (enat 99999), initial_locals, empty_batch_lists)))"

text \<open>
  The rows of a table after \<open>_insert\<close> and after \<open>_update\<close> on the relational store
  (unchanged when the call fails), and the manager after such a call.
\<close>

definition rows_after_insert :: "table \<Rightarrow> msg list \<Rightarrow> row list \<Rightarrow> row list" where
  "rows_after_insert t messages rows =
     (case sql_insert_rows t (generate_mappings t None messages) rows of
        Inl e \<Rightarrow> rows | Inr rows' \<Rightarrow> rows')"

definition rows_after_update :: "bool \<Rightarrow> table \<Rightarrow> string list \<Rightarrow> msg list \<Rightarrow> row list \<Rightarrow> row list" where
  "rows_after_update strict t columns messages rows =
     (case sql_update_rows strict t (generate_mappings t (Some columns) messages) rows of
        Inl e \<Rightarrow> rows | Inr rows' \<Rightarrow> rows')"

definition sql_insert_state :: "bool \<Rightarrow> table \<Rightarrow> msg list \<Rightarrow> tables dbm \<Rightarrow> tables dbm" where
  "sql_insert_state strict t messages s = snd (dbm_insert (sql_session strict) t messages s)"

definition sql_update_state ::
  "bool \<Rightarrow> table \<Rightarrow> string list \<Rightarrow> msg list \<Rightarrow> tables dbm \<Rightarrow> tables dbm" where
  "sql_update_state strict t columns messages s =
     snd (dbm_update (sql_session strict) t columns messages s)"



text \<open>
  A first resource message after the two assignments of lines 521--522
  (\<open>msg['task_status_name'] = States.running.name\<close> and
  \<open>msg['task_time_running'] = msg['timestamp']\<close>).
\<close>

definition promoted :: "msg \<Rightarrow> msg" where
  "promoted r =
     r(''task_status_name'' \<mapsto> VStr States_running_name,
       ''task_time_running'' \<mapsto> msg_get r ''timestamp'')"







text \<open>
  The first resource message of the try of \<open>example_task_info\<close>; a task message for
  that try that reports the status \<open>running\<close> itself; and one without the key
  \<open>task_executor\<close>.
\<close>

definition example_first_resource :: msg where
  "example_first_resource =
     [''task_id'' \<mapsto> VInt 1, ''try_id'' \<mapsto> VInt 0, ''run_id'' \<mapsto> VStr ''r1'',
      ''timestamp'' \<mapsto> VTime 3, ''first_msg'' \<mapsto> VBool True, ''hostname'' \<mapsto> VStr ''n1'',
      ''psutil_process_pid'' \<mapsto> VInt 4242]"



subsection \<open>Facts about the mapping generator\<close>

lemma mapping_of_snoc:
  "mapping_of (cs @ [c]) msg = (mapping_of cs msg)(c \<mapsto> msg_get msg c)"
  by (simp add: mapping_of_def)

lemma mapping_of_apply:
  "mapping_of cs msg c = (if c \<in> set cs then Some (msg_get msg c) else None)"
  by (induction cs rule: rev_induct) (simp_all add: mapping_of_snoc, simp add: mapping_of_def)

lemma dom_mapping_of: "dom (mapping_of cs msg) = set cs"
  by (auto simp: dom_def mapping_of_apply)

lemma generate_mappings_loop_eq:
  "generate_mappings_loop t columns messages acc =
     acc @ map (mapping_of (requested_columns t columns)) messages"
proof (induction messages arbitrary: columns acc)
  case Nil
  show ?case by simp
next
  case (Cons msg messages)
  show ?case
    by (cases columns) (simp_all add: Cons.IH requested_columns_def Let_def)
qed

lemma generate_mappings_eq:
  "generate_mappings t columns messages = map (mapping_of (requested_columns t columns)) messages"
  by (simp add: generate_mappings_def generate_mappings_loop_eq)

text \<open>
  Claim C9. For every table, column list and message list the mapping generator returns
  one row mapping per message, in message order; the mapping of the i-th message binds
  exactly the requested columns (all columns of the table when the column list is
  \<open>None\<close>), each to the message's value at that key, and to \<open>None\<close> when the message
  has no such key. The generator is a total function into row lists: no input makes it
  raise.
\<close>

theorem generate_mappings_rows:
  "length (generate_mappings t columns messages) = length messages \<and>
   (\<forall>i < length messages.
      dom (generate_mappings t columns messages ! i) = set (requested_columns t columns) \<and>
      (\<forall>c \<in> set (requested_columns t columns).
         (generate_mappings t columns messages ! i) c =
           Some (case (messages ! i) c of None \<Rightarrow> VNone | Some v \<Rightarrow> v)))"
  by (simp add: generate_mappings_eq dom_mapping_of mapping_of_apply msg_get_def)

theorem generate_mappings_rows_witness:
  "(0::nat) < length [[''run_id'' \<mapsto> VStr ''r1'']] \<and>
   ''hostname'' \<in> set (requested_columns NODE (Some [''run_id'', ''hostname''])) \<and>
   (generate_mappings NODE (Some [''run_id'', ''hostname'']) [[''run_id'' \<mapsto> VStr ''r1'']] ! 0)
      ''hostname'' = Some VNone \<and>
   (generate_mappings NODE (Some [''run_id'', ''hostname'']) [[''run_id'' \<mapsto> VStr ''r1'']] ! 0)
      ''run_id'' = Some (VStr ''r1'')"
  using generate_mappings_rows [of NODE "Some [''run_id'', ''hostname'']"
      "[[''run_id'' \<mapsto> VStr ''r1'']]"]
  by (simp add: requested_columns_def)

subsection \<open>The batcher\<close>

lemma get_messages_loop_result:
  assumes "enat (length messages) \<le> threshold"
    and "get_messages_loop clock k start interval threshold messages q = (ms, rest, why)"
  shows "messages @ q = ms @ rest \<and> enat (length ms) \<le> threshold \<and>
         (why = Queue_Empty \<longrightarrow> rest = [] \<and> enat (length ms) < threshold)"
  using assms
proof (induction q arbitrary: messages k)
  case Nil
  then show ?case by (auto split: if_splits)
next
  case (Cons x q)
  show ?case
  proof (cases "interval_reached (clock k - start) interval \<or> enat (length messages) \<ge> threshold")
    case True
    with Cons.prems show ?thesis by auto
  next
    case False
    then have "enat (length (messages @ [x])) \<le> threshold"
      by (simp add: Suc_ile_eq not_le)
    moreover from False Cons.prems(2)
    have "get_messages_loop clock (Suc k) start interval threshold (messages @ [x]) q = (ms, rest, why)"
      by simp
    ultimately show ?thesis
      using Cons.IH [of "messages @ [x]" "Suc k"] by simp
  qed
qed

lemma get_messages_loop_drains:
  assumes "enat (length messages + length q) < threshold"
    and "\<forall>j. \<not> interval_reached (clock j - start) interval"
  shows "get_messages_loop clock k start interval threshold messages q = (messages @ q, [], Queue_Empty)"
  using assms
proof (induction q arbitrary: messages k)
  case Nil
  then show ?case by (simp add: not_le)
next
  case (Cons x q)
  have "enat (length messages) \<le> enat (length messages + length (x # q))"
    by simp
  with Cons.prems(1) have "enat (length messages) < threshold"
    by (metis le_less_trans)
  then have "\<not> enat (length messages) \<ge> threshold" by (simp add: not_le)
  with Cons show ?case by simp
qed

text \<open>
  Claim C8. For every queue, interval and threshold the batcher returns: it is a total
  function that ends by structural recursion on the waiting items. The list it returns is
  a prefix of the queue in arrival order and never has more than \<open>threshold\<close> items; and
  when it stops because a poll found the queue empty, it has taken everything and returns
  fewer than \<open>threshold\<close> items: the threshold is an upper bound, not a minimum.
\<close>

theorem get_messages_in_batch_bounds:
  "\<exists>ms rest why.
     get_messages_in_batch clock msg_queue interval threshold = (ms, rest, why) \<and>
     msg_queue = ms @ rest \<and>
     enat (length ms) \<le> threshold \<and>
     (why = Queue_Empty \<longrightarrow> rest = [] \<and> enat (length ms) < threshold)"
proof -
  obtain ms rest why where
    r: "get_messages_loop clock 1 (clock 0) interval threshold [] msg_queue = (ms, rest, why)"
    by (cases "get_messages_loop clock 1 (clock 0) interval threshold [] msg_queue") auto
  have "enat (length ([] :: 'a list)) \<le> threshold" by (simp add: zero_enat_def [symmetric])
  from get_messages_loop_result [OF this r] r show ?thesis
    by (simp add: get_messages_in_batch_def)
qed

theorem get_messages_in_batch_bounds_witness:
  "get_messages_in_batch (\<lambda>k. 0) [7, 8 :: nat] (Secs 1) (enat 5) = ([7, 8], [], Queue_Empty) \<and>
   enat (length [7, 8 :: nat]) < enat 5"
  using get_messages_in_batch_bounds [of "\<lambda>k. 0" "[7, 8 :: nat]" "Secs 1" "enat 5"]
  by (simp add: get_messages_in_batch_def)

subsection \<open>The loop condition\<close>

lemma loop_exit_drained:
  "\<not> loop_condition k qs \<Longrightarrow>
     k \<and> pending_priority_queue qs = [] \<and> pending_resource_queue qs = [] \<and>
     priority_queue qs = [] \<and> resource_queue qs = []"
  by (simp add: loop_condition_def)

text \<open>
  Claim C4 (the code departs from it). With the shutdown flag set and the priority and
  resource queues empty, the loop condition is false although a node message waits in the
  internal node queue and another in the external one: the condition of lines 373--375
  reads four queue sizes and neither \<open>pending_node_queue\<close> nor \<open>node_queue\<close>.
\<close>

theorem loop_exits_with_node_messages:
  "\<not> loop_condition True
       \<lparr>pending_priority_queue = ([] :: nat list), pending_node_queue = [1 :: nat],
        pending_resource_queue = [], priority_queue = [], node_queue = [2],
        resource_queue = []\<rparr>"
  by (simp add: loop_condition_def)

theorem loop_exits_with_node_messages_witness:
  "pending_node_queue
     \<lparr>pending_priority_queue = ([] :: nat list), pending_node_queue = [1 :: nat],
      pending_resource_queue = [], priority_queue = [], node_queue = [2],
      resource_queue = []\<rparr> = [1] \<and>
   \<not> loop_condition True
       \<lparr>pending_priority_queue = ([] :: nat list), pending_node_queue = [1 :: nat],
        pending_resource_queue = [], priority_queue = [], node_queue = [2],
        resource_queue = []\<rparr>"
  using loop_exits_with_node_messages by simp

subsection \<open>The exception handlers of \_update and \_insert\<close>

lemma try_rollback_total:
  assumes "db_rollback S (store s) = (r, d')"
  shows "try_rollback S s =
           (case r of
              None \<Rightarrow> (None, s\<lparr>store := d'\<rparr>)
            | Some e' \<Rightarrow>
                if is_Exception e'
                then (None, s\<lparr>store := d', logged := logged s @ [''Rollback failed'']\<rparr>)
                else (Some e', s\<lparr>store := d'\<rparr>))"
  using assms by (cases r) (simp_all add: try_rollback_def)

lemma handle_dml_exception_total:
  assumes "db_rollback S (store s) = (r, d')"
  shows "handle_dml_exception S e l1 l2 s =
           (if is_Exception e \<or> e = KeyboardInterrupt then
              (case r of
                 None \<Rightarrow>
                   (if e = KeyboardInterrupt then Some KeyboardInterrupt else None,
                    s\<lparr>store := d',
                      logged := logged s @ [if e = KeyboardInterrupt then l1 else l2]\<rparr>)
               | Some e' \<Rightarrow>
                   if is_Exception e' then
                     (if e = KeyboardInterrupt then Some KeyboardInterrupt else None,
                      s\<lparr>store := d',
                        logged := logged s @
                          [if e = KeyboardInterrupt then l1 else l2, ''Rollback failed'']\<rparr>)
                   else
                     (Some e',
                      s\<lparr>store := d',
                        logged := logged s @ [if e = KeyboardInterrupt then l1 else l2]\<rparr>))
            else (Some e, s))"
proof -
  have tr: "try_rollback S (s\<lparr>logged := logged s @ [l]\<rparr>) =
           (case r of
              None \<Rightarrow> (None, s\<lparr>store := d', logged := logged s @ [l]\<rparr>)
            | Some e' \<Rightarrow>
                if is_Exception e'
                then (None, s\<lparr>store := d', logged := logged s @ [l, ''Rollback failed'']\<rparr>)
                else (Some e', s\<lparr>store := d', logged := logged s @ [l]\<rparr>))" for l
    using try_rollback_total [of S "s\<lparr>logged := logged s @ [l]\<rparr>" r d'] assms
    by (cases r) simp_all
  show ?thesis
  proof (cases "e = KeyboardInterrupt")
    case True
    then show ?thesis
      by (cases r) (simp_all add: handle_dml_exception_def tr)
  next
    case False
    then show ?thesis
      by (cases r) (simp_all add: handle_dml_exception_def tr)
  qed
qed

lemma dbm_update_raised_total:
  assumes "db_update S t (Some columns) messages (store s) = (Some e, d)"
    and "db_rollback S d = (r, d')"
  shows "dbm_update S t columns messages s =
           (if is_Exception e \<or> e = KeyboardInterrupt then
              (case r of
                 None \<Rightarrow>
                   (if e = KeyboardInterrupt then Some KeyboardInterrupt else None,
                    s\<lparr>store := d',
                      logged := logged s @
                        [if e = KeyboardInterrupt
                         then ''KeyboardInterrupt when trying to update Table '' @ table_name t
                         else ''Got exception when trying to update table '' @ table_name t],
                      calls := calls s @ [(Update t columns messages, Some e, d')]\<rparr>)
               | Some e' \<Rightarrow>
                   if is_Exception e' then
                     (if e = KeyboardInterrupt then Some KeyboardInterrupt else None,
                      s\<lparr>store := d',
                        logged := logged s @
                          [if e = KeyboardInterrupt
                           then ''KeyboardInterrupt when trying to update Table '' @ table_name t
                           else ''Got exception when trying to update table '' @ table_name t,
                           ''Rollback failed''],
                        calls := calls s @ [(Update t columns messages, Some e, d')]\<rparr>)
                   else
                     (Some e',
                      s\<lparr>store := d',
                        logged := logged s @
                          [if e = KeyboardInterrupt
                           then ''KeyboardInterrupt when trying to update Table '' @ table_name t
                           else ''Got exception when trying to update table '' @ table_name t],
                        calls := calls s @ [(Update t columns messages, Some e, d')]\<rparr>))
            else (Some e, s\<lparr>store := d, calls := calls s @ [(Update t columns messages, Some e, d)]\<rparr>))"
  using handle_dml_exception_total [of S "s\<lparr>store := d\<rparr>" r d' e] assms
  by (cases r) (auto simp: dbm_update_def record_call_def)

lemma dbm_insert_raised_total:
  assumes "db_insert S t messages (store s) = (Some e, d)"
    and "db_rollback S d = (r, d')"
  shows "dbm_insert S t messages s =
           (if is_Exception e \<or> e = KeyboardInterrupt then
              (case r of
                 None \<Rightarrow>
                   (if e = KeyboardInterrupt then Some KeyboardInterrupt else None,
                    s\<lparr>store := d',
                      logged := logged s @
                        [if e = KeyboardInterrupt
                         then ''KeyboardInterrupt when trying to update Table '' @ table_name t
                         else ''Got exception when trying to insert to table '' @ table_name t],
                      calls := calls s @ [(Insert t messages, Some e, d')]\<rparr>)
               | Some e' \<Rightarrow>
                   if is_Exception e' then
                     (if e = KeyboardInterrupt then Some KeyboardInterrupt else None,
                      s\<lparr>store := d',
                        logged := logged s @
                          [if e = KeyboardInterrupt
                           then ''KeyboardInterrupt when trying to update Table '' @ table_name t
                           else ''Got exception when trying to insert to table '' @ table_name t,
                           ''Rollback failed''],
                        calls := calls s @ [(Insert t messages, Some e, d')]\<rparr>)
                   else
                     (Some e',
                      s\<lparr>store := d',
                        logged := logged s @
                          [if e = KeyboardInterrupt
                           then ''KeyboardInterrupt when trying to update Table '' @ table_name t
                           else ''Got exception when trying to insert to table '' @ table_name t],
                        calls := calls s @ [(Insert t messages, Some e, d')]\<rparr>))
            else (Some e, s\<lparr>store := d, calls := calls s @ [(Insert t messages, Some e, d)]\<rparr>))"
  using handle_dml_exception_total [of S "s\<lparr>store := d\<rparr>" r d' e] assms
  by (cases r) (auto simp: dbm_insert_def record_call_def)

lemmas failing_defs =
  dbm_update_def dbm_insert_def record_call_def db_update_def db_insert_def
  handle_dml_exception_def try_rollback_def db_rollback_def failing_session_def init_dbm_def
  generate_mappings_def

text \<open>
  Claim C7, as stated, fails in two ways. The handlers do not swallow every exception of
  the rollback: when the call raises an ordinary error and the rollback is then
  interrupted, the \<open>KeyboardInterrupt\<close> leaves \<open>_update\<close> and \<open>_insert\<close>, since
  \<open>except Exception\<close> does not catch it. And they do not catch every exception of the
  call that is not a \<open>KeyboardInterrupt\<close>: a \<open>SystemExit\<close> raised by the call leaves
  both methods with nothing logged and no rollback.
\<close>

theorem dml_exceptions_not_swallowed:
  "fst (dbm_update (failing_session (DBError ''locked'') (Some KeyboardInterrupt)) WORKFLOW
          [''run_id''] [] (init_dbm () (Secs 1) (enat 99999))) = Some KeyboardInterrupt \<and>
   fst (dbm_insert (failing_session (DBError ''locked'') (Some KeyboardInterrupt)) TASK
          [] (init_dbm () (Secs 1) (enat 99999))) = Some KeyboardInterrupt \<and>
   fst (dbm_insert (failing_session SystemExit None) TASK [] (init_dbm () (Secs 1) (enat 99999))) =
     Some SystemExit \<and>
   logged (snd (dbm_insert (failing_session SystemExit None) TASK []
     (init_dbm () (Secs 1) (enat 99999)))) = [] \<and>
   fst (dbm_update (failing_session SystemExit None) WORKFLOW [''run_id''] []
     (init_dbm () (Secs 1) (enat 99999))) = Some SystemExit \<and>
   logged (snd (dbm_update (failing_session SystemExit None) WORKFLOW [''run_id''] []
     (init_dbm () (Secs 1) (enat 99999)))) = []"
  by (simp add: failing_defs)

text \<open>
  Claim C7, amended. Let the \<open>Database\<close> call inside \<open>_update\<close> or \<open>_insert\<close> raise
  \<open>e\<close>, and let \<open>r\<close> be what the rollback raises, if it is attempted. If \<open>e\<close> is of
  class \<open>Exception\<close>, it is logged and the rollback attempted; if \<open>e\<close> is a
  \<open>KeyboardInterrupt\<close>, it is logged, the rollback attempted and
  \<open>KeyboardInterrupt\<close> raised again; any other \<open>e\<close> is not handled: it leaves
  the method with nothing logged and no rollback. In the attempt, an exception of the
  rollback that is of class \<open>Exception\<close> is logged as \<open>Rollback failed\<close> and dropped,
  so that in the first case the method returns normally; one that is not of class
  \<open>Exception\<close> is not dropped and leaves the method.
\<close>

theorem dml_exception_handling:
  assumes "db_rollback S d = (r, d')"
  shows "(db_update S t (Some columns) messages (store s) = (Some e, d) \<longrightarrow>
            dbm_update S t columns messages s =
              (if is_Exception e \<or> e = KeyboardInterrupt then
                 (case r of
                    None \<Rightarrow>
                      (if e = KeyboardInterrupt then Some KeyboardInterrupt else None,
                       s\<lparr>store := d',
                         logged := logged s @
                           [if e = KeyboardInterrupt
                            then ''KeyboardInterrupt when trying to update Table '' @ table_name t
                            else ''Got exception when trying to update table '' @ table_name t],
                         calls := calls s @ [(Update t columns messages, Some e, d')]\<rparr>)
                  | Some e' \<Rightarrow>
                      if is_Exception e' then
                        (if e = KeyboardInterrupt then Some KeyboardInterrupt else None,
                         s\<lparr>store := d',
                           logged := logged s @
                             [if e = KeyboardInterrupt
                              then ''KeyboardInterrupt when trying to update Table '' @ table_name t
                              else ''Got exception when trying to update table '' @ table_name t,
                              ''Rollback failed''],
                           calls := calls s @ [(Update t columns messages, Some e, d')]\<rparr>)
                      else
                        (Some e',
                         s\<lparr>store := d',
                           logged := logged s @
                             [if e = KeyboardInterrupt
                              then ''KeyboardInterrupt when trying to update Table '' @ table_name t
                              else ''Got exception when trying to update table '' @ table_name t],
                           calls := calls s @ [(Update t columns messages, Some e, d')]\<rparr>))
               else (Some e,
                     s\<lparr>store := d, calls := calls s @ [(Update t columns messages, Some e, d)]\<rparr>))) \<and>
         (db_insert S t messages (store s) = (Some e, d) \<longrightarrow>
            dbm_insert S t messages s =
              (if is_Exception e \<or> e = KeyboardInterrupt then
                 (case r of
                    None \<Rightarrow>
                      (if e = KeyboardInterrupt then Some KeyboardInterrupt else None,
                       s\<lparr>store := d',
                         logged := logged s @
                           [if e = KeyboardInterrupt
                            then ''KeyboardInterrupt when trying to update Table '' @ table_name t
                            else ''Got exception when trying to insert to table '' @ table_name t],
                         calls := calls s @ [(Insert t messages, Some e, d')]\<rparr>)
                  | Some e' \<Rightarrow>
                      if is_Exception e' then
                        (if e = KeyboardInterrupt then Some KeyboardInterrupt else None,
                         s\<lparr>store := d',
                           logged := logged s @
                             [if e = KeyboardInterrupt
                              then ''KeyboardInterrupt when trying to update Table '' @ table_name t
                              else ''Got exception when trying to insert to table '' @ table_name t,
                              ''Rollback failed''],
                           calls := calls s @ [(Insert t messages, Some e, d')]\<rparr>)
                      else
                        (Some e',
                         s\<lparr>store := d',
                           logged := logged s @
                             [if e = KeyboardInterrupt
                              then ''KeyboardInterrupt when trying to update Table '' @ table_name t
                              else ''Got exception when trying to insert to table '' @ table_name t],
                           calls := calls s @ [(Insert t messages, Some e, d')]\<rparr>))
               else (Some e,
                     s\<lparr>store := d, calls := calls s @ [(Insert t messages, Some e, d)]\<rparr>)))"
  using dbm_update_raised_total [OF _ assms] dbm_insert_raised_total [OF _ assms]
  by blast

theorem dml_exception_handling_witness:
  "db_rollback (failing_session (DBError ''locked'') (Some (DBError ''gone''))) () =
     (Some (DBError ''gone''), ()) \<and>
   db_insert (failing_session (DBError ''locked'') (Some (DBError ''gone''))) TASK []
     (store (init_dbm () (Secs 1) (enat 99999))) = (Some (DBError ''locked''), ()) \<and>
   dbm_insert (failing_session (DBError ''locked'') (Some (DBError ''gone''))) TASK []
     (init_dbm () (Secs 1) (enat 99999)) =
     (None,
      (init_dbm () (Secs 1) (enat 99999))
        \<lparr>logged := [''Got exception when trying to insert to table task'', ''Rollback failed''],
         calls := [(Insert TASK [], Some (DBError ''locked''), ())]\<rparr>) \<and>
   db_rollback (failing_session KeyboardInterrupt None) () = (None, ()) \<and>
   db_update (failing_session KeyboardInterrupt None) TRY (Some [''run_id'']) []
     (store (init_dbm () (Secs 1) (enat 99999))) = (Some KeyboardInterrupt, ()) \<and>
   dbm_update (failing_session KeyboardInterrupt None) TRY [''run_id''] []
     (init_dbm () (Secs 1) (enat 99999)) =
     (Some KeyboardInterrupt,
      (init_dbm () (Secs 1) (enat 99999))
        \<lparr>logged := [''KeyboardInterrupt when trying to update Table try''],
         calls := [(Update TRY [''run_id''] [], Some KeyboardInterrupt, ())]\<rparr>)"
proof -
  let ?S = "failing_session (DBError ''locked'') (Some (DBError ''gone''))"
  let ?K = "failing_session KeyboardInterrupt None"
  let ?s = "init_dbm () (Secs 1) (enat 99999)"
  have r: "db_rollback ?S () = (Some (DBError ''gone''), ())"
    by (simp add: db_rollback_def failing_session_def)
  have i: "db_insert ?S TASK [] (store ?s) = (Some (DBError ''locked''), ())"
    by (simp add: db_insert_def failing_session_def)
  have rk: "db_rollback ?K () = (None, ())"
    by (simp add: db_rollback_def failing_session_def)
  have u: "db_update ?K TRY (Some [''run_id'']) [] (store ?s) = (Some KeyboardInterrupt, ())"
    by (simp add: db_update_def failing_session_def)
  from dml_exception_handling [OF r, of TASK "[''run_id'']" "[]" ?s "DBError ''locked''"] i
  have a: "dbm_insert ?S TASK [] ?s =
     (None, ?s\<lparr>logged := [''Got exception when trying to insert to table task'', ''Rollback failed''],
         calls := [(Insert TASK [], Some (DBError ''locked''), ())]\<rparr>)"
    by (simp add: init_dbm_def)
  from dml_exception_handling [OF rk, of TRY "[''run_id'']" "[]" ?s KeyboardInterrupt] u
  have b: "dbm_update ?K TRY [''run_id''] [] ?s =
     (Some KeyboardInterrupt, ?s\<lparr>logged := [''KeyboardInterrupt when trying to update Table try''],
         calls := [(Update TRY [''run_id''] [], Some KeyboardInterrupt, ())]\<rparr>)"
    by (simp add: init_dbm_def)
  from r i rk u a b show ?thesis by simp
qed

subsection \<open>Calls issued and fields kept by \_insert and \_update\<close>

lemma try_rollback_calls: "try_rollback S s = (out, s') \<Longrightarrow> calls s' = calls s"
  by (auto simp: try_rollback_def split: prod.splits option.splits if_splits)

lemma handle_dml_exception_calls:
  "handle_dml_exception S e l1 l2 s = (out, s') \<Longrightarrow> calls s' = calls s"
  by (auto simp: handle_dml_exception_def split: prod.splits option.splits if_splits
      dest: try_rollback_calls)

lemma dbm_insert_issued: "dbm_insert S t ms s = (out, s') \<Longrightarrow> issued s' = issued s @ [Insert t ms]"
  by (auto simp: dbm_insert_def record_call_def issued_def split: prod.splits option.splits
      dest: handle_dml_exception_calls)

lemma dbm_update_issued:
  "dbm_update S t cols ms s = (out, s') \<Longrightarrow> issued s' = issued s @ [Update t cols ms]"
  by (auto simp: dbm_update_def record_call_def issued_def split: prod.splits option.splits
      dest: handle_dml_exception_calls)

lemma try_rollback_out: "try_rollback S s = (Some e, s') \<Longrightarrow> \<not> is_Exception e"
  by (auto simp: try_rollback_def split: prod.splits option.splits if_splits)

lemma handle_dml_exception_out:
  "handle_dml_exception S e l1 l2 s = (Some e', s') \<Longrightarrow> \<not> is_Exception e'"
  by (auto simp: handle_dml_exception_def split: prod.splits option.splits if_splits
      dest: try_rollback_out)

lemma dbm_insert_out: "dbm_insert S t ms s = (Some e, s') \<Longrightarrow> \<not> is_Exception e"
  by (auto simp: dbm_insert_def record_call_def split: prod.splits option.splits
      dest: handle_dml_exception_out)

lemma dbm_update_out: "dbm_update S t cols ms s = (Some e, s') \<Longrightarrow> \<not> is_Exception e"
  by (auto simp: dbm_update_def record_call_def split: prod.splits option.splits
      dest: handle_dml_exception_out)

lemma try_rollback_fields:
  "try_rollback S s = (out, s') \<Longrightarrow>
     workflow_end s' = workflow_end s \<and> workflow_start_message s' = workflow_start_message s \<and>
     batching_interval s' = batching_interval s \<and> batching_threshold s' = batching_threshold s \<and>
     kill_event s' = kill_event s"
  by (auto simp: try_rollback_def split: prod.splits option.splits if_splits)

lemma handle_dml_exception_fields:
  "handle_dml_exception S e l1 l2 s = (out, s') \<Longrightarrow>
     workflow_end s' = workflow_end s \<and> workflow_start_message s' = workflow_start_message s \<and>
     batching_interval s' = batching_interval s \<and> batching_threshold s' = batching_threshold s \<and>
     kill_event s' = kill_event s"
  by (auto simp: handle_dml_exception_def split: prod.splits option.splits if_splits
      dest: try_rollback_fields)

lemma dbm_insert_fields:
  "dbm_insert S t ms s = (out, s') \<Longrightarrow>
     workflow_end s' = workflow_end s \<and> workflow_start_message s' = workflow_start_message s \<and>
     batching_interval s' = batching_interval s \<and> batching_threshold s' = batching_threshold s \<and>
     kill_event s' = kill_event s"
  by (auto simp: dbm_insert_def record_call_def split: prod.splits option.splits
      dest: handle_dml_exception_fields)

lemma dbm_update_fields:
  "dbm_update S t cols ms s = (out, s') \<Longrightarrow>
     workflow_end s' = workflow_end s \<and> workflow_start_message s' = workflow_start_message s \<and>
     batching_interval s' = batching_interval s \<and> batching_threshold s' = batching_threshold s \<and>
     kill_event s' = kill_event s"
  by (auto simp: dbm_update_def record_call_def split: prod.splits option.splits
      dest: handle_dml_exception_fields)

lemmas eval_defs =
  dbm_insert_def dbm_update_def record_call_def db_insert_def db_update_def sql_session_def
  generate_mappings_def mapping_of_def column_keys_def has_null_def not_null_columns_def
  pk_of_def pk_columns_def msg_get_def restrict_map_def init_dbm_def empty_tables_def
  set_columns_def handle_dml_exception_def try_rollback_def db_rollback_def
  unique_violation_def not_null_violation_def

subsection \<open>Workflow messages\<close>

lemma priority_message_workflow_info:
  assumes "priority_message S (WORKFLOW_INFO, msg) (s, l, b) = (out, s', l', b')"
  shows "l' = l \<and> b' = b \<and> (\<forall>e. out = Some e \<longrightarrow> \<not> is_Exception e) \<and>
     (msg ''python_version'' \<noteq> None \<longrightarrow>
        issued s' = issued s @ [Insert WORKFLOW [msg]] \<and>
        workflow_end s' = workflow_end s \<and>
        (out = None \<longrightarrow> workflow_start_message s' = Some msg)) \<and>
     (msg ''python_version'' = None \<longrightarrow>
        issued s' = issued s @
          [Update WORKFLOW
             [''run_id'', ''tasks_failed_count'', ''tasks_completed_count'', ''time_completed'']
             [msg]] \<and>
        workflow_start_message s' = workflow_start_message s \<and>
        (out = None \<longrightarrow> workflow_end s'))"
proof (cases "msg ''python_version'' = None")
  case True
  obtain o1 s1 where u: "dbm_update S WORKFLOW
      [''run_id'', ''tasks_failed_count'', ''tasks_completed_count'', ''time_completed''] [msg] s = (o1, s1)"
    by (cases "dbm_update S WORKFLOW
      [''run_id'', ''tasks_failed_count'', ''tasks_completed_count'', ''time_completed''] [msg] s") auto
  from assms True u dbm_update_issued [OF u] dbm_update_fields [OF u] dbm_update_out [of S _ _ _ s _ s1]
  show ?thesis
    by (cases o1) (auto simp: priority_message.simps issued_def)
next
  case False
  obtain o1 s1 where u: "dbm_insert S WORKFLOW [msg] s = (o1, s1)"
    by (cases "dbm_insert S WORKFLOW [msg] s") auto
  from assms False u dbm_insert_issued [OF u] dbm_insert_fields [OF u] dbm_insert_out [of S _ _ s _ s1]
  show ?thesis
    by (cases o1) (auto simp: priority_message.simps issued_def)
qed


subsection \<open>Loops and the resource phase\<close>


lemma for_each_invariant:
  assumes "for_each f xs s = (out, s')"
    and "I s"
    and "\<And>x s out s'. x \<in> set xs \<Longrightarrow> I s \<Longrightarrow> f x s = (out, s') \<Longrightarrow> I s'"
  shows "I s'"
  using assms
proof (induction xs arbitrary: s)
  case Nil
  then show ?case by simp
next
  case (Cons x xs)
  obtain o1 s1 where f: "f x s = (o1, s1)" by (cases "f x s") auto
  have I1: "I s1" using Cons.prems(3) [of x s o1 s1] Cons.prems(2) f by simp
  show ?case
  proof (cases o1)
    case None
    with Cons.prems(1) f have fe: "for_each f xs s1 = (out, s')" by simp
    show ?thesis
    proof (rule Cons.IH [OF fe I1])
      fix y t o2 t'
      assume "y \<in> set xs" "I t" "f y t = (o2, t')"
      then show "I t'" using Cons.prems(3) [of y t o2 t'] by simp
    qed
  next
    case (Some e)
    with Cons.prems(1) f have "s' = s1" by simp
    with I1 show ?thesis by simp
  qed
qed

lemma for_each_identity:
  assumes "\<And>x. x \<in> set xs \<Longrightarrow> f x s = (None, s)"
  shows "for_each f xs s = (None, s)"
  using assms by (induction xs) simp_all

lemma resource_message_non_first:
  assumes "m ''task_id'' \<noteq> None" and "m ''try_id'' \<noteq> None"
    and "m ''first_msg'' = Some f" and "\<not> truthy f"
  shows "resource_message m (s, l) = (None, s, l)"
  using assms by (auto simp: resource_message.simps msg_item_def)

text \<open>
  Claim C10. For resource messages whose \<open>first_msg\<close> is false: the loop body leaves
  the manager and the local variables as they are for each of them; the resource phase
  makes one call, \<open>_insert\<close> on the resource table with the whole batch, and returns the
  local variables unchanged, among them \<open>inserted_tasks\<close>, \<open>inserted_tries\<close>,
  \<open>deferred_resource_messages\<close> and the list of promoted messages, which alone decides
  the status insert and the try update; and an iteration that receives only such messages
  makes this one call and no other.
\<close>

theorem non_first_resource_messages_frame:
  assumes "\<forall>m \<in> set resource_messages.
             m ''task_id'' \<noteq> None \<and> m ''try_id'' \<noteq> None \<and>
             (\<exists>f. m ''first_msg'' = Some f \<and> \<not> truthy f)"
  shows "(\<forall>m \<in> set resource_messages. resource_message m (s, l) = (None, s, l)) \<and>
         (resource_messages \<noteq> [] \<longrightarrow>
            (\<exists>out s'. resource_phase S resource_messages (s, l) = (out, s', l) \<and>
                       issued s' = issued s @ [Insert RESOURCE resource_messages])) \<and>
         (resource_messages \<noteq> [] \<longrightarrow>
            (\<exists>out s'. coordinator_iteration S ([], [], resource_messages) (s, l) =
                         (out, s', l\<lparr>reprocessable_first_resource_messages := []\<rparr>) \<and>
                       issued s' = issued s @ [Insert RESOURCE resource_messages]))"
proof -
  have step: "resource_message m (s0, l0) = (None, s0, l0)"
    if "m \<in> set resource_messages" for m l0 and s0 :: "'a dbm"
    using assms that resource_message_non_first by blast
  have loop: "for_each resource_message resource_messages (s0, l0) = (None, s0, l0)"
    for s0 :: "'a dbm" and l0
    by (rule for_each_identity) (use assms resource_message_non_first in blast)
  have phase: "\<exists>out s'. resource_phase S resource_messages (s0, l0) = (out, s', l0) \<and>
                 issued s' = issued s0 @ [Insert RESOURCE resource_messages]"
    if "resource_messages \<noteq> []" for s0 l0
  proof -
    obtain o1 s1 where i: "dbm_insert S RESOURCE resource_messages s0 = (o1, s1)"
      by (cases "dbm_insert S RESOURCE resource_messages s0") auto
    from that i loop [of s1 l0] dbm_insert_issued [OF i] show ?thesis
      by (cases o1) (simp_all add: resource_phase.simps)
  qed
  have iter: "\<exists>out s'. coordinator_iteration S ([], [], resource_messages) (s, l) =
                         (out, s', l\<lparr>reprocessable_first_resource_messages := []\<rparr>) \<and>
                       issued s' = issued s @ [Insert RESOURCE resource_messages]"
    if ne: "resource_messages \<noteq> []"
  proof -
    let ?l = "l\<lparr>reprocessable_first_resource_messages := []\<rparr>"
    from phase [OF ne, of s ?l] obtain out s' where
      p: "resource_phase S resource_messages (s, ?l) = (out, s', ?l)"
      and c: "issued s' = issued s @ [Insert RESOURCE resource_messages]" by blast
    from p c show ?thesis
      by (cases out)
         (simp_all add: coordinator_iteration.simps andthen_def priority_phase.simps
            node_phase.simps reprocess_phase.simps)
  qed
  from step phase iter show ?thesis by blast
qed

theorem non_first_resource_messages_frame_witness:
  "example_resource_sample ''first_msg'' = Some (VBool False) \<and>
   issued (fst (snd (coordinator_iteration (sql_session True) ([], [], [example_resource_sample])
      (init_dbm empty_tables (Secs 1) (enat 99999), initial_locals)))) =
     [Insert RESOURCE [example_resource_sample]] \<and>
   snd (snd (coordinator_iteration (sql_session True) ([], [], [example_resource_sample])
      (init_dbm empty_tables (Secs 1) (enat 99999), initial_locals))) = initial_locals"
proof -
  have "\<forall>m \<in> set [example_resource_sample].
             m ''task_id'' \<noteq> None \<and> m ''try_id'' \<noteq> None \<and>
             (\<exists>f. m ''first_msg'' = Some f \<and> \<not> truthy f)"
    by (simp add: example_resource_sample_def)
  from non_first_resource_messages_frame [OF this, of "init_dbm empty_tables (Secs 1) (enat 99999)"
      initial_locals "sql_session True"]
  show ?thesis
    by (auto simp: example_resource_sample_def issued_def init_dbm_def initial_locals_def)
qed

subsection \<open>At most one insert per task and per try\<close>


lemma issues_dbm_insert: "issues (dbm_insert S t ms) [Insert t ms]"
  unfolding issues_def
proof (intro allI impI)
  fix s out s'
  assume "dbm_insert S t ms s = (out, s')"
  from dbm_insert_issued [OF this]
  show "(\<exists>n. issued s' = issued s @ take n [Insert t ms]) \<and>
        (out = None \<longrightarrow> issued s' = issued s @ [Insert t ms])"
    by (auto intro: exI [of _ 1])
qed

lemma issues_dbm_update: "issues (dbm_update S t cols ms) [Update t cols ms]"
  unfolding issues_def
proof (intro allI impI)
  fix s out s'
  assume "dbm_update S t cols ms s = (out, s')"
  from dbm_update_issued [OF this]
  show "(\<exists>n. issued s' = issued s @ take n [Update t cols ms]) \<and>
        (out = None \<longrightarrow> issued s' = issued s @ [Update t cols ms])"
    by (auto intro: exI [of _ 1])
qed

lemma issues_if_then: "issues f cs \<Longrightarrow> issues (if_then b f) (if b then cs else [])"
  by (auto simp: issues_def if_then_def)

lemma issues_andthen:
  assumes "issues f cs" and "issues g ds"
  shows "issues (andthen f g) (cs @ ds)"
  unfolding issues_def
proof (intro allI impI)
  fix s out s'
  assume a: "andthen f g s = (out, s')"
  obtain o1 s1 where f: "f s = (o1, s1)" by (cases "f s") auto
  have fa: "(\<exists>n. issued s1 = issued s @ take n cs) \<and> (o1 = None \<longrightarrow> issued s1 = issued s @ cs)"
    using assms(1) f unfolding issues_def by blast
  then obtain n where n: "issued s1 = issued s @ take n cs" by blast
  from fa have all: "o1 = None \<longrightarrow> issued s1 = issued s @ cs" by blast
  show "(\<exists>n. issued s' = issued s @ take n (cs @ ds)) \<and>
        (out = None \<longrightarrow> issued s' = issued s @ cs @ ds)"
  proof (cases o1)
    case (Some e)
    with a f have "s' = s1" "out = Some e" by (simp_all add: andthen_def)
    moreover have "take (min n (length cs)) (cs @ ds) = take n cs" by (simp add: min_def)
    ultimately show ?thesis using n by (metis option.distinct(1))
  next
    case None
    with a f have g: "g s1 = (out, s')" by (simp add: andthen_def)
    have ga: "(\<exists>k. issued s' = issued s1 @ take k ds) \<and> (out = None \<longrightarrow> issued s' = issued s1 @ ds)"
      using assms(2) g unfolding issues_def by blast
    then obtain k where k: "issued s' = issued s1 @ take k ds" by blast
    from ga have allg: "out = None \<longrightarrow> issued s' = issued s1 @ ds" by blast
    from None all have s1: "issued s1 = issued s @ cs" by simp
    have "take (length cs + k) (cs @ ds) = cs @ take k ds" by simp
    with k s1 have "issued s' = issued s @ take (length cs + k) (cs @ ds)" by simp
    then have "\<exists>n. issued s' = issued s @ take n (cs @ ds)" by (rule exI)
    moreover from allg s1 have "out = None \<longrightarrow> issued s' = issued s @ cs @ ds" by simp
    ultimately show ?thesis by (rule conjI)
  qed
qed

lemma priority_dml_issues: "issues (priority_dml S b) (priority_calls b)"
  unfolding priority_dml_def priority_calls_def
  by (intro issues_andthen issues_if_then issues_dbm_insert issues_dbm_update)


lemma inserted_into_append [simp]:
  "inserted_into t (xs @ ys) = inserted_into t xs @ inserted_into t ys"
  by (simp add: inserted_into_def)

lemma inserted_into_take: "\<exists>ys. inserted_into t cs = inserted_into t (take n cs) @ ys"
proof -
  have "inserted_into t cs = inserted_into t (take n cs @ drop n cs)" by simp
  then show ?thesis by (simp only: inserted_into_append) blast
qed

lemma inserted_into_priority_calls:
  "inserted_into TASK (priority_calls b) = task_info_insert_messages b"
  "inserted_into TRY (priority_calls b) = try_insert_messages b"
  by (simp_all add: priority_calls_def inserted_into_def)

lemma issues_unrelated:
  assumes "issues f cs" and "f s = (out, s')" and "inserted_into t cs = []"
  shows "inserted_into t (issued s') = inserted_into t (issued s)"
proof -
  from assms(1,2) obtain n where "issued s' = issued s @ take n cs"
    unfolding issues_def by blast
  moreover from inserted_into_take [of t cs n] assms(3) have "inserted_into t (take n cs) = []"
    by simp
  ultimately show ?thesis by simp
qed

lemma key_inv_snoc: "key_inv f xs K \<Longrightarrow> f x \<notin> K \<Longrightarrow> key_inv f (xs @ [x]) (insert (f x) K)"
  by (auto simp: key_inv_def)

lemma key_inv_mono: "key_inv f xs K \<Longrightarrow> K \<subseteq> K' \<Longrightarrow> key_inv f xs K'"
  by (auto simp: key_inv_def)

lemma key_inv_prefix: "key_inv f (xs @ ys) K \<Longrightarrow> key_inv f xs K"
  by (auto simp: key_inv_def)

lemma insert_inv_prefix:
  assumes "insert_inv (ts @ p1 @ y1) (rs @ p2 @ y2) l"
  shows "insert_inv (ts @ p1) (rs @ p2) l"
  using assms key_inv_prefix [of _ "ts @ p1" y1] key_inv_prefix [of _ "rs @ p2" y2]
  by (auto simp: insert_inv_def)

lemma insert_inv_locals:
  assumes "insert_inv ts rs l"
    and "inserted_tasks l' = inserted_tasks l" and "inserted_tries l' = inserted_tries l"
  shows "insert_inv ts rs l'"
  using assms by (simp add: insert_inv_def)

lemma priority_message_task_info:
  assumes "priority_message S (TASK_INFO, msg) (s, l, b) = (out, s', l', b')"
    and "msg ''task_id'' = Some t" and "msg ''try_id'' = Some y"
  shows "s' = s" "out = None"
    "inserted_tasks l' = insert t (inserted_tasks l)"
    "inserted_tries l' = insert (py_str t @ ''.'' @ py_str y) (inserted_tries l)"
    "task_info_all_messages b' = task_info_all_messages b @ [msg]"
    "try_all_messages b' = try_all_messages b @ [msg]"
    "task_info_insert_messages b' =
       task_info_insert_messages b @ (if t \<in> inserted_tasks l then [] else [msg])"
    "task_info_update_messages b' =
       task_info_update_messages b @ (if t \<in> inserted_tasks l then [msg] else [])"
    "try_insert_messages b' =
       try_insert_messages b @
         (if py_str t @ ''.'' @ py_str y \<in> inserted_tries l then [] else [msg])"
    "try_update_messages b' =
       try_update_messages b @
         (if py_str t @ ''.'' @ py_str y \<in> inserted_tries l then [msg] else [])"
    "deferred_resource_messages l' =
       (if py_str t @ ''.'' @ py_str y \<in> inserted_tries l then deferred_resource_messages l
        else (deferred_resource_messages l)(py_str t @ ''.'' @ py_str y := None))"
    "reprocessable_first_resource_messages l' =
       reprocessable_first_resource_messages l @
         (if py_str t @ ''.'' @ py_str y \<in> inserted_tries l then []
          else (case deferred_resource_messages l (py_str t @ ''.'' @ py_str y) of
                  None \<Rightarrow> [] | Some d \<Rightarrow> [d]))"
  using assms
  by (auto simp: priority_message.simps msg_item_def Let_def split: option.splits if_splits)

lemma priority_message_insert_inv:
  assumes "priority_message S (ty, msg) (s, l, b) = (out, s', l', b')"
    and "insert_inv (inserted_into TASK (issued s) @ task_info_insert_messages b)
           (inserted_into TRY (issued s) @ try_insert_messages b) l"
  shows "insert_inv (inserted_into TASK (issued s') @ task_info_insert_messages b')
           (inserted_into TRY (issued s') @ try_insert_messages b') l'"
proof (cases ty)
  case WORKFLOW_INFO
  with assms(1) have "priority_message S (WORKFLOW_INFO, msg) (s, l, b) = (out, s', l', b')"
    by simp
  from priority_message_workflow_info [OF this]
  have "l' = l" "b' = b" "inserted_into TASK (issued s') = inserted_into TASK (issued s)"
    "inserted_into TRY (issued s') = inserted_into TRY (issued s)"
    by (cases "msg ''python_version'' = None"; simp add: inserted_into_def)+
  with assms(2) show ?thesis by simp
next
  case (OTHER_TYPE n)
  with assms show ?thesis by (simp add: priority_message.simps)
next
  case TASK_INFO
  show ?thesis
  proof (cases "msg ''task_id''")
    case None
    with assms TASK_INFO show ?thesis by (simp add: priority_message.simps msg_item_def)
  next
    case (Some t)
    note tid = this
    show ?thesis
    proof (cases "msg ''try_id''")
      case None
      with assms TASK_INFO tid show ?thesis by (simp add: priority_message.simps msg_item_def)
    next
      case (Some y)
      from assms(1) TASK_INFO
      have pm: "priority_message S (TASK_INFO, msg) (s, l, b) = (out, s', l', b')" by simp
      note f = priority_message_task_info [OF pm tid Some]
      let ?key = "py_str t @ ''.'' @ py_str y"
      have g1: "msg_get msg ''task_id'' = t" using tid by (simp add: msg_get_def)
      have g2: "task_try_id msg = ?key"
        using tid Some by (simp add: task_try_id_def msg_get_def)
      from assms(2)
      have T: "key_inv (\<lambda>m. msg_get m ''task_id'')
                 (inserted_into TASK (issued s) @ task_info_insert_messages b) (inserted_tasks l)"
        and R: "key_inv task_try_id
                 (inserted_into TRY (issued s) @ try_insert_messages b) (inserted_tries l)"
        by (simp_all add: insert_inv_def)
      have T': "key_inv (\<lambda>m. msg_get m ''task_id'')
                 (inserted_into TASK (issued s') @ task_info_insert_messages b') (inserted_tasks l')"
      proof (cases "t \<in> inserted_tasks l")
        case True
        with T f(1,3,7) show ?thesis by (simp add: insert_absorb)
      next
        case False
        with key_inv_snoc [OF T, of msg] g1 f(1,3,7) show ?thesis by simp
      qed
      have R': "key_inv task_try_id
                 (inserted_into TRY (issued s') @ try_insert_messages b') (inserted_tries l')"
      proof (cases "?key \<in> inserted_tries l")
        case True
        with R f(1,4,9) show ?thesis by (simp add: insert_absorb)
      next
        case False
        with key_inv_snoc [OF R, of msg] g2 f(1,4,9) show ?thesis by simp
      qed
      from T' R' show ?thesis by (simp add: insert_inv_def)
    qed
  qed
qed


lemma priority_loop_insert_inv:
  assumes "for_each (priority_message S) pm (s, l, b) = (out, s', l', b')"
    and "insert_inv (inserted_into TASK (issued s) @ task_info_insert_messages b)
           (inserted_into TRY (issued s) @ try_insert_messages b) l"
  shows "insert_inv (inserted_into TASK (issued s') @ task_info_insert_messages b')
           (inserted_into TRY (issued s') @ try_insert_messages b') l'"
proof -
  let ?I = "\<lambda>(s, l, b). insert_inv (inserted_into TASK (issued s) @ task_info_insert_messages b)
           (inserted_into TRY (issued s) @ try_insert_messages b) l"
  have "?I (s', l', b')"
  proof (rule for_each_invariant [OF assms(1), of ?I])
    show "?I (s, l, b)" using assms(2) by simp
  next
    fix x st out1 st'
    assume "x \<in> set pm" and I: "?I st" and st: "priority_message S x st = (out1, st')"
    obtain ty msg where x: "x = (ty, msg)" by (cases x)
    obtain s1 l1 b1 where s1: "st = (s1, l1, b1)" by (cases st)
    obtain s2 l2 b2 where s2: "st' = (s2, l2, b2)" by (cases st')
    from priority_message_insert_inv [of S ty msg s1 l1 b1 out1 s2 l2 b2] I st x s1 s2
    show "?I st'" by simp
  qed
  then show ?thesis by simp
qed

lemma priority_phase_inv:
  assumes "priority_phase S pm (s, l) = (out, s', l')" and "coordinator_inv s l"
  shows "coordinator_inv s' l'"
proof (cases "pm = []")
  case True
  with assms show ?thesis by (simp add: priority_phase.simps)
next
  case False
  obtain o1 s1 l1 b1 where
    loop: "for_each (priority_message S) pm (s, l, empty_batch_lists) = (o1, s1, l1, b1)"
    by (cases "for_each (priority_message S) pm (s, l, empty_batch_lists)") auto
  from assms(2)
  have "insert_inv (inserted_into TASK (issued s) @ task_info_insert_messages empty_batch_lists)
           (inserted_into TRY (issued s) @ try_insert_messages empty_batch_lists) l"
    by (simp add: coordinator_inv_def empty_batch_lists_def)
  from priority_loop_insert_inv [OF loop this]
  have K: "insert_inv (inserted_into TASK (issued s1) @ task_info_insert_messages b1)
           (inserted_into TRY (issued s1) @ try_insert_messages b1) l1" .
  show ?thesis
  proof (cases o1)
    case (Some e)
    with assms(1) False loop have "s' = s1" "l' = l1" by (simp_all add: priority_phase.simps)
    moreover from insert_inv_prefix [of _ "[]" _ _ "[]"] K
    have "insert_inv (inserted_into TASK (issued s1)) (inserted_into TRY (issued s1)) l1"
      by simp
    ultimately show ?thesis by (simp add: coordinator_inv_def)
  next
    case None
    obtain o2 s2 where dml: "priority_dml S b1 s1 = (o2, s2)"
      by (cases "priority_dml S b1 s1") auto
    with assms(1) False loop None have e: "s' = s2" "l' = l1"
      by (simp_all add: priority_phase.simps)
    from priority_dml_issues [of S b1] dml obtain n where
      n: "issued s2 = issued s1 @ take n (priority_calls b1)"
      unfolding issues_def by blast
    from inserted_into_take [of TASK "priority_calls b1" n] obtain y1 where
      y1: "task_info_insert_messages b1 = inserted_into TASK (take n (priority_calls b1)) @ y1"
      by (auto simp: inserted_into_priority_calls)
    from inserted_into_take [of TRY "priority_calls b1" n] obtain y2 where
      y2: "try_insert_messages b1 = inserted_into TRY (take n (priority_calls b1)) @ y2"
      by (auto simp: inserted_into_priority_calls)
    from K y1 y2
    have "insert_inv
            (inserted_into TASK (issued s1) @ inserted_into TASK (take n (priority_calls b1)) @ y1)
            (inserted_into TRY (issued s1) @ inserted_into TRY (take n (priority_calls b1)) @ y2) l1"
      by simp
    from insert_inv_prefix [OF this] n e show ?thesis
      by (simp add: coordinator_inv_def)
  qed
qed

lemma node_phase_inv:
  assumes "node_phase S ns (s, l) = (out, s', l')" and "coordinator_inv s l"
  shows "coordinator_inv s' l'"
proof (cases "ns = []")
  case True
  with assms show ?thesis by (simp add: node_phase.simps)
next
  case False
  obtain o1 s1 where i: "dbm_insert S NODE ns s = (o1, s1)"
    by (cases "dbm_insert S NODE ns s") auto
  with assms(1) False have "s' = s1" "l' = l" by (simp_all add: node_phase.simps)
  with dbm_insert_issued [OF i] assms(2) show ?thesis
    by (simp add: coordinator_inv_def inserted_into_def)
qed

lemma resource_message_frame:
  assumes "resource_message m (s, l) = (out, s', l')"
  shows "calls s' = calls s" "store s' = store s"
    "workflow_end s' = workflow_end s" "workflow_start_message s' = workflow_start_message s"
    "inserted_tasks l' = inserted_tasks l" "inserted_tries l' = inserted_tries l"
  using assms
  by (auto simp: resource_message.simps msg_item_def Let_def
      split: sum.splits option.splits if_splits)

lemma resource_loop_frame:
  assumes "for_each resource_message ms (s, l) = (out, s', l')"
  shows "calls s' = calls s \<and> store s' = store s \<and>
    workflow_end s' = workflow_end s \<and> workflow_start_message s' = workflow_start_message s \<and>
    inserted_tasks l' = inserted_tasks l \<and> inserted_tries l' = inserted_tries l"
proof -
  let ?I = "\<lambda>(s1, l1). calls s1 = calls s \<and> store s1 = store s \<and>
    workflow_end s1 = workflow_end s \<and> workflow_start_message s1 = workflow_start_message s \<and>
    inserted_tasks l1 = inserted_tasks l \<and> inserted_tries l1 = inserted_tries l"
  have "?I (s', l')"
  proof (rule for_each_invariant [OF assms, of ?I])
    show "?I (s, l)" by simp
  next
    fix x st out1 st'
    assume "x \<in> set ms" and I: "?I st" and st: "resource_message x st = (out1, st')"
    obtain s1 l1 where s1: "st = (s1, l1)" by (cases st)
    obtain s2 l2 where s2: "st' = (s2, l2)" by (cases st')
    from resource_message_frame [of x s1 l1 out1 s2 l2] I st s1 s2
    show "?I st'" by simp
  qed
  then show ?thesis by simp
qed

lemma resource_phase_inv:
  assumes "resource_phase S rs (s, l) = (out, s', l')" and "coordinator_inv s l"
  shows "coordinator_inv s' l'"
proof (cases "rs = []")
  case True
  with assms show ?thesis by (simp add: resource_phase.simps)
next
  case False
  obtain o1 s1 where i: "dbm_insert S RESOURCE rs s = (o1, s1)"
    by (cases "dbm_insert S RESOURCE rs s") auto
  from dbm_insert_issued [OF i] assms(2) have inv1: "coordinator_inv s1 l"
    by (simp add: coordinator_inv_def inserted_into_def)
  show ?thesis
  proof (cases o1)
    case (Some e)
    with assms(1) False i have "s' = s1" "l' = l" by (simp_all add: resource_phase.simps)
    with inv1 show ?thesis by simp
  next
    case None
    with assms(1) False i have "for_each resource_message rs (s1, l) = (out, s', l')"
      by (simp add: resource_phase.simps)
    from resource_loop_frame [OF this] inv1 show ?thesis
      by (simp add: coordinator_inv_def insert_inv_def issued_def)
  qed
qed

lemma reprocess_phase_inv:
  assumes "reprocess_phase S (s, l) = (out, s', l')" and "coordinator_inv s l"
  shows "coordinator_inv s' l'"
proof (cases "reprocessable_first_resource_messages l = []")
  case True
  with assms show ?thesis by (simp add: reprocess_phase.simps)
next
  case False
  let ?f = "andthen (dbm_insert S STATUS (reprocessable_first_resource_messages l))
                (dbm_update S TRY
                   [''task_time_running'', ''run_id'', ''task_id'', ''try_id'', ''hostname'']
                   (reprocessable_first_resource_messages l))"
  obtain o1 s1 where f: "?f s = (o1, s1)" by (cases "?f s") auto
  with assms(1) False have e: "s' = s1" "l' = l" by (simp_all add: reprocess_phase.simps)
  have "issues ?f
          ([Insert STATUS (reprocessable_first_resource_messages l)] @
           [Update TRY [''task_time_running'', ''run_id'', ''task_id'', ''try_id'', ''hostname'']
              (reprocessable_first_resource_messages l)])"
    by (intro issues_andthen issues_dbm_insert issues_dbm_update)
  from issues_unrelated [OF this f, of TASK] issues_unrelated [OF this f, of TRY] assms(2) e
  show ?thesis by (simp add: coordinator_inv_def inserted_into_def)
qed

lemma andthen_cases:
  assumes "andthen f g s = (out, s')"
  obtains (stop) e where "f s = (Some e, s')" "out = Some e"
        | (go) s1 where "f s = (None, s1)" "g s1 = (out, s')"
  using assms by (auto simp: andthen_def split: prod.splits option.splits)

lemma coordinator_iteration_inv:
  assumes "coordinator_iteration S batches (s, l) = (out, s', l')" and "coordinator_inv s l"
  shows "coordinator_inv s' l'"
proof -
  obtain pm ns rs where b: "batches = (pm, ns, rs)" by (cases batches)
  let ?l = "l\<lparr>reprocessable_first_resource_messages := []\<rparr>"
  have i0: "coordinator_inv s ?l"
    using assms(2) by (simp add: coordinator_inv_def insert_inv_def)
  from assms(1) b
  have it: "andthen (priority_phase S pm)
      (andthen (node_phase S ns) (andthen (resource_phase S rs) (reprocess_phase S)))
      (s, ?l) = (out, s', l')"
    by (simp add: coordinator_iteration.simps)
  from it show ?thesis
  proof (cases rule: andthen_cases)
    case (stop e)
    from priority_phase_inv [OF stop(1) i0] show ?thesis .
  next
    case (go st1)
    obtain s1 l1 where st1: "st1 = (s1, l1)" by (cases st1)
    note p1 = go(1) [unfolded st1] and r1 = go(2) [unfolded st1]
    from priority_phase_inv [OF p1 i0] have i1: "coordinator_inv s1 l1" .
    from r1 show ?thesis
    proof (cases rule: andthen_cases)
      case (stop e)
      from node_phase_inv [OF stop(1) i1] show ?thesis .
    next
      case (go st2)
      obtain s2 l2 where st2: "st2 = (s2, l2)" by (cases st2)
      note p2 = go(1) [unfolded st2] and r2 = go(2) [unfolded st2]
      from node_phase_inv [OF p2 i1] have i2: "coordinator_inv s2 l2" .
      from r2 show ?thesis
      proof (cases rule: andthen_cases)
        case (stop e)
        from resource_phase_inv [OF stop(1) i2] show ?thesis .
      next
        case (go st3)
        obtain s3 l3 where st3: "st3 = (s3, l3)" by (cases st3)
        note p3 = go(1) [unfolded st3] and r3 = go(2) [unfolded st3]
        from resource_phase_inv [OF p3 i2] have i3: "coordinator_inv s3 l3" .
        from reprocess_phase_inv [OF r3 i3] show ?thesis .
      qed
    qed
  qed
qed

lemma start_loop_inv:
  assumes "start_loop S trace s0 = (out, s, l)" and "calls s0 = []"
  shows "coordinator_inv s l"
proof -
  let ?I = "\<lambda>(s, l). coordinator_inv s l"
  from assms(1) have fe: "for_each (coordinator_iteration S) trace (s0, initial_locals) = (out, s, l)"
    by (simp add: start_loop_def)
  have "?I (s, l)"
  proof (rule for_each_invariant [OF fe, of ?I])
    show "?I (s0, initial_locals)"
      using assms(2)
      by (simp add: coordinator_inv_def insert_inv_def key_inv_def issued_def inserted_into_def)
  next
    fix x st out1 st'
    assume "x \<in> set trace" and I: "?I st" and st: "coordinator_iteration S x st = (out1, st')"
    obtain s1 l1 where s1: "st = (s1, l1)" by (cases st)
    obtain s2 l2 where s2: "st' = (s2, l2)" by (cases st')
    from coordinator_iteration_inv [of S x s1 l1 out1 s2 l2] I st s1 s2
    show "?I st'" by simp
  qed
  then show ?thesis by simp
qed

lemma distinct_map_coarser:
  assumes "distinct (map f xs)" and "\<And>x y. g x = g y \<Longrightarrow> f x = f y"
  shows "distinct (map g xs)"
  using assms(1)
proof (induction xs)
  case Nil
  show ?case by simp
next
  case (Cons x xs)
  from Cons.prems have "f x \<notin> f ` set xs" by simp
  then have "g x \<notin> g ` set xs" using assms(2) by blast
  with Cons show ?case by simp
qed

lemma start_loop_distinct_inserts:
  assumes "start_loop S trace s0 = (out, s, l)" and "calls s0 = []"
  shows "distinct (map task_pk (inserted_into TASK (issued s)))"
    and "distinct (map try_pk (inserted_into TRY (issued s)))"
proof -
  from start_loop_inv [OF assms]
  have d1: "distinct (map (\<lambda>m. msg_get m ''task_id'') (inserted_into TASK (issued s)))"
    and d2: "distinct (map task_try_id (inserted_into TRY (issued s)))"
    by (simp_all add: coordinator_inv_def insert_inv_def key_inv_def)
  from d1 show "distinct (map task_pk (inserted_into TASK (issued s)))"
    by (rule distinct_map_coarser) (simp add: task_pk_def)
  from d2 show "distinct (map try_pk (inserted_into TRY (issued s)))"
    by (rule distinct_map_coarser) (simp add: try_pk_def task_try_id_def)
qed

lemmas coord_defs =
  start_loop_def coordinator_iteration.simps priority_phase.simps node_phase.simps
  resource_phase.simps reprocess_phase.simps priority_message.simps resource_message.simps
  priority_dml_def andthen_def if_then_def msg_item_def initial_locals_def
  empty_batch_lists_def States_running_name_def

text \<open>
  Claim C3. Whatever the store does and however the messages are spread over the
  iterations, the messages that the coordinator hands to \<open>_insert\<close> for the task table,
  over the whole run, have pairwise different keys \<open>(task_id, run_id)\<close>, and those it
  hands to \<open>_insert\<close> for the try table have pairwise different keys
  \<open>(try_id, task_id, run_id)\<close>: a repeated key goes to the update path. No two inserted
  rows of either table can therefore collide on the primary key.
\<close>

theorem no_repeated_task_or_try_insert:
  assumes "start_loop S trace (init_dbm d interval threshold) = (out, s, l)"
  shows "distinct (map task_pk (inserted_into TASK (issued s))) \<and>
         distinct (map try_pk (inserted_into TRY (issued s)))"
  using start_loop_distinct_inserts [OF assms] by (simp add: init_dbm_def)

theorem no_repeated_task_or_try_insert_witness:
  "inserted_into TASK (issued (fst (snd (start_loop (sql_session True)
      [([(TASK_INFO, example_task_info), (TASK_INFO, example_task_info)], [], [])]
      (init_dbm empty_tables (Secs 1) (enat 99999)))))) = [example_task_info] \<and>
   distinct (map task_pk (inserted_into TASK (issued (fst (snd (start_loop (sql_session True)
      [([(TASK_INFO, example_task_info), (TASK_INFO, example_task_info)], [], [])]
      (init_dbm empty_tables (Secs 1) (enat 99999)))))))) \<and>
   distinct (map try_pk (inserted_into TRY (issued (fst (snd (start_loop (sql_session True)
      [([(TASK_INFO, example_task_info), (TASK_INFO, example_task_info)], [], [])]
      (init_dbm empty_tables (Secs 1) (enat 99999))))))))"
proof -
  let ?r = "start_loop (sql_session True)
      [([(TASK_INFO, example_task_info), (TASK_INFO, example_task_info)], [], [])]
      (init_dbm empty_tables (Secs 1) (enat 99999))"
  have e: "?r = (fst ?r, fst (snd ?r), snd (snd ?r))" by simp
  have "map fst (calls (fst (snd ?r))) =
    [Update WORKFLOW [''run_id'', ''tasks_failed_count'', ''tasks_completed_count'']
       [example_task_info, example_task_info],
     Insert TASK [example_task_info],
     Update TASK [''task_time_submitted'', ''task_time_returned'', ''run_id'', ''task_id'',
                  ''task_fail_count''] [example_task_info],
     Insert STATUS [example_task_info, example_task_info],
     Insert TRY [example_task_info],
     Update TRY [''task_time_returned'', ''run_id'', ''task_id'', ''try_id'', ''task_fail_history'',
                 ''task_time_submitted'', ''task_try_time_returned''] [example_task_info]]"
    by (simp add: coord_defs eval_defs example_task_info_def str_int_def str_nat.simps
        digit_char_def Let_def)
  then have "inserted_into TASK (issued (fst (snd ?r))) = [example_task_info]"
    by (simp add: issued_def inserted_into_def)
  with no_repeated_task_or_try_insert [OF e] show ?thesis by simp
qed

subsection \<open>The abnormal-exit finaliser\<close>

text \<open>
  Claim C5 (the code departs from it). The workflow-start message for run \<open>r1\<close> with
  \<open>time_began = 0\<close> has been processed and no workflow-end message has arrived;
  \<open>close\<close> runs when the clock shows 5 seconds. It returns normally. The message it
  hands to \<open>_update\<close> carries \<open>time_completed\<close> equal to the clock and
  \<open>workflow_duration = 5.0\<close>, and the workflow row gets this \<open>time_completed\<close>; but
  the row has no \<open>workflow_duration\<close>: the workflow table declares no such column
  (lines 119--133), so the computed duration, although listed among the columns of the
  update, is stored nowhere.
\<close>

theorem abnormal_exit_duration_not_stored:
  "fst (close (sql_session True) 5000000 started_dbm) = None \<and>
   map (\<lambda>m. (m ''time_completed'', m ''workflow_duration''))
     (concat (map (\<lambda>c. case c of Update t cs ms \<Rightarrow> ms | Insert t ms \<Rightarrow> [])
        (issued (snd (close (sql_session True) 5000000 started_dbm))))) =
     [(Some (VTime 5000000), Some (VFloat 5))] \<and>
   map (\<lambda>row. (row ''run_id'', row ''time_began'', row ''time_completed'', row ''workflow_duration''))
     (store (snd (close (sql_session True) 5000000 started_dbm)) WORKFLOW) =
     [(Some (VStr ''r1''), Some (VTime 0), Some (VTime 5000000), None)]"
  by (simp add: close_def started_dbm_def priority_message.simps andthen_def msg_item_def
      eval_defs example_workflow_start_def issued_def Let_def)

subsection \<open>\_insert and \_update on the relational store\<close>


lemma sql_insert_rows_error:
  "sql_insert_rows t ms rows = Inl e \<Longrightarrow> e = not_null_violation \<or> e = unique_violation"
  by (induction ms arbitrary: rows) (auto simp: Let_def split: if_splits)

lemma sql_update_rows_error: "sql_update_rows strict t ms rows = Inl e \<Longrightarrow> is_Exception e"
  by (induction ms arbitrary: rows) (auto simp: Let_def not_null_violation_def split: if_splits)

lemma db_insert_sql:
  "db_insert (sql_session strict) t ms d =
     (case sql_insert_rows t (generate_mappings t None ms) (d t) of
        Inl e \<Rightarrow> (Some e, d) | Inr rows \<Rightarrow> (None, d(t := rows)))"
  by (simp add: db_insert_def sql_session_def split: sum.splits)

lemma db_update_sql:
  "db_update (sql_session strict) t (Some cols) ms d =
     (case sql_update_rows strict t (generate_mappings t (Some cols) ms) (d t) of
        Inl e \<Rightarrow> (Some e, d) | Inr rows \<Rightarrow> (None, d(t := rows)))"
  by (simp add: db_update_def sql_session_def split: sum.splits)

lemma db_insert_sql_raised:
  assumes "db_insert (sql_session strict) t ms d = (Some e, d')"
  shows "is_Exception e" "d' = d" "e = not_null_violation \<or> e = unique_violation"
  using assms sql_insert_rows_error [of t "generate_mappings t None ms" "d t" e]
  by (auto simp: db_insert_sql not_null_violation_def unique_violation_def split: sum.splits)

lemma db_update_sql_raised:
  assumes "db_update (sql_session strict) t (Some cols) ms d = (Some e, d')"
  shows "is_Exception e" "d' = d"
  using assms sql_update_rows_error [of strict t "generate_mappings t (Some cols) ms" "d t" e]
  by (auto simp: db_update_sql split: sum.splits)

lemma db_rollback_sql [simp]: "db_rollback (sql_session strict) d = (None, d)"
  by (simp add: db_rollback_def sql_session_def)

lemma snd_db_insert_sql:
  "snd (db_insert (sql_session strict) t ms d) = d(t := rows_after_insert t ms (d t))"
  by (auto simp: db_insert_sql rows_after_insert_def split: sum.splits)

lemma snd_db_update_sql:
  "snd (db_update (sql_session strict) t (Some cols) ms d) =
     d(t := rows_after_update strict t cols ms (d t))"
  by (auto simp: db_update_sql rows_after_update_def split: sum.splits)

lemma dbm_insert_sql_full:
  "dbm_insert (sql_session strict) t ms s =
     (None,
      s\<lparr>store := (store s)(t := rows_after_insert t ms (store s t)),
        logged := logged s @
          (case fst (db_insert (sql_session strict) t ms (store s)) of
             None \<Rightarrow> []
           | Some e \<Rightarrow> [''Got exception when trying to insert to table '' @ table_name t]),
        calls := calls s @
          [(Insert t ms, fst (db_insert (sql_session strict) t ms (store s)),
            (store s)(t := rows_after_insert t ms (store s t)))]\<rparr>)"
proof (cases "db_insert (sql_session strict) t ms (store s)")
  case (Pair raised d')
  have d': "d' = (store s)(t := rows_after_insert t ms (store s t))"
    using snd_db_insert_sql [of strict t ms "store s"] Pair by simp
  show ?thesis
  proof (cases raised)
    case None
    with Pair d' show ?thesis by (simp add: dbm_insert_def record_call_def)
  next
    case (Some e)
    with Pair db_insert_sql_raised [of strict t ms "store s" e d']
    have ex: "is_Exception e" and "d' = store s" by simp_all
    then have "e \<noteq> KeyboardInterrupt" by auto
    with Pair Some ex d' show ?thesis
      by (simp add: dbm_insert_def record_call_def handle_dml_exception_def try_rollback_def)
  qed
qed

lemma dbm_update_sql_full:
  "dbm_update (sql_session strict) t cols ms s =
     (None,
      s\<lparr>store := (store s)(t := rows_after_update strict t cols ms (store s t)),
        logged := logged s @
          (case fst (db_update (sql_session strict) t (Some cols) ms (store s)) of
             None \<Rightarrow> []
           | Some e \<Rightarrow> [''Got exception when trying to update table '' @ table_name t]),
        calls := calls s @
          [(Update t cols ms, fst (db_update (sql_session strict) t (Some cols) ms (store s)),
            (store s)(t := rows_after_update strict t cols ms (store s t)))]\<rparr>)"
proof (cases "db_update (sql_session strict) t (Some cols) ms (store s)")
  case (Pair raised d')
  have d': "d' = (store s)(t := rows_after_update strict t cols ms (store s t))"
    using snd_db_update_sql [of strict t cols ms "store s"] Pair by simp
  show ?thesis
  proof (cases raised)
    case None
    with Pair d' show ?thesis by (simp add: dbm_update_def record_call_def)
  next
    case (Some e)
    with Pair db_update_sql_raised [of strict t cols ms "store s" e d']
    have ex: "is_Exception e" and "d' = store s" by simp_all
    then have "e \<noteq> KeyboardInterrupt" by auto
    with Pair Some ex d' show ?thesis
      by (simp add: dbm_update_def record_call_def handle_dml_exception_def try_rollback_def)
  qed
qed

lemma dbm_insert_sql:
  "dbm_insert (sql_session strict) t ms s = (None, sql_insert_state strict t ms s)"
  by (simp add: sql_insert_state_def dbm_insert_sql_full)


lemma sql_insert_state_simps [simp]:
  "store (sql_insert_state strict t ms s) = (store s)(t := rows_after_insert t ms (store s t))"
  "workflow_end (sql_insert_state strict t ms s) = workflow_end s"
  "workflow_start_message (sql_insert_state strict t ms s) = workflow_start_message s"
  "kill_event (sql_insert_state strict t ms s) = kill_event s"
  by (simp_all add: sql_insert_state_def dbm_insert_sql_full)

lemma sql_update_state_simps [simp]:
  "store (sql_update_state strict t cols ms s) =
     (store s)(t := rows_after_update strict t cols ms (store s t))"
  "workflow_end (sql_update_state strict t cols ms s) = workflow_end s"
  "workflow_start_message (sql_update_state strict t cols ms s) = workflow_start_message s"
  "kill_event (sql_update_state strict t cols ms s) = kill_event s"
  by (simp_all add: sql_update_state_def dbm_update_sql_full)

subsection \<open>Workflow messages on the relational store\<close>


lemma restrict_mapping_of [simp]: "mapping_of cs m |` set cs = mapping_of cs m"
  by (rule ext) (simp add: restrict_map_def mapping_of_apply)










subsection \<open>A task message and the first resource message of its try\<close>














lemma rows_after_insert_single:
  assumes "t \<noteq> NODE"
  shows "rows_after_insert t [m] rows =
     (if has_null t (mapping_of (column_keys t) m) \<or>
         pk_of t (mapping_of (column_keys t) m) \<in> pk_of t ` set rows
      then rows else rows @ [mapping_of (column_keys t) m])"
  using assms
  by (simp add: rows_after_insert_def generate_mappings_eq requested_columns_def Let_def)














subsection \<open>A resource message that arrives before the task message of its try\<close>

text \<open>
  Claim C2 (referential closure), at the race that the comment before the loop describes:
  the first resource message of try 0 of task 1 arrives before any task message. The
  loop inserts it into the resource table at once (line 517) and defers only the status
  row and the update of the try (lines 518--530). The iteration ends normally, and the
  store it leaves has a resource row of that try while the try table and the task table
  are empty: the row refers to no try.
\<close>

theorem resource_before_try:
  "fst (start_loop (sql_session True) [([], [], [example_first_resource])]
          (init_dbm empty_tables (Secs 1) (enat 99999))) = None \<and>
   map (\<lambda>row. (msg_get row ''try_id'', msg_get row ''task_id'', msg_get row ''run_id''))
     (store (fst (snd (start_loop (sql_session True) [([], [], [example_first_resource])]
          (init_dbm empty_tables (Secs 1) (enat 99999))))) RESOURCE) =
     [(VInt 0, VInt 1, VStr ''r1'')] \<and>
   store (fst (snd (start_loop (sql_session True) [([], [], [example_first_resource])]
          (init_dbm empty_tables (Secs 1) (enat 99999))))) TRY = [] \<and>
   store (fst (snd (start_loop (sql_session True) [([], [], [example_first_resource])]
          (init_dbm empty_tables (Secs 1) (enat 99999))))) TASK = []"
proof -
  let ?s = "init_dbm empty_tables (Secs 1) (enat 99999)"
  have rows: "rows_after_insert RESOURCE [example_first_resource] [] =
      [mapping_of (column_keys RESOURCE) example_first_resource]"
    by (simp add: rows_after_insert_single has_null_def not_null_columns_def mapping_of_apply
        column_keys_def example_first_resource_def msg_get_def)
  have g: "msg_get (mapping_of (column_keys RESOURCE) example_first_resource) ''try_id'' = VInt 0"
    "msg_get (mapping_of (column_keys RESOURCE) example_first_resource) ''task_id'' = VInt 1"
    "msg_get (mapping_of (column_keys RESOURCE) example_first_resource) ''run_id'' = VStr ''r1''"
    by (simp_all add: mapping_of_apply column_keys_def example_first_resource_def msg_get_def)
  have run: "start_loop (sql_session True) [([], [], [example_first_resource])] ?s =
      (None,
       sql_insert_state True RESOURCE [example_first_resource] ?s,
       initial_locals\<lparr>deferred_resource_messages :=
         [py_str (VInt 1) @ ''.'' @ py_str (VInt 0) \<mapsto> promoted example_first_resource]\<rparr>)"
    by (simp add: start_loop_def coordinator_iteration.simps priority_phase.simps node_phase.simps
        resource_phase.simps reprocess_phase.simps resource_message.simps andthen_def
        msg_item_def dbm_insert_sql Let_def initial_locals_def promoted_def
        example_first_resource_def msg_get_def)
  show ?thesis
    unfolding run by (simp add: rows g init_dbm_def empty_tables_def)
qed

end
